theory Spec2Isabelle
  imports Complex_Main "HOL-Library.Word"
begin

section \<open>JavaScript values\<close>

text \<open>
  A JavaScript string is a sequence of UTF-16 code units.  \<open>js\<close> turns an ASCII
  literal of the source into such a sequence.
\<close>

type_synonym jschar = "16 word"
type_synonym jsstring = "jschar list"

definition js :: "string \<Rightarrow> jsstring" where
  "js s = map (\<lambda>c. of_nat (of_char c)) s"

text \<open>
  The values \<open>JSON.parse\<close> produces.  An object keeps its members in source order,
  duplicates included; a property read takes the last member of a name, as the later
  definition overwrites the earlier one.  A number is kept as the exact decimal value of
  its literal.
\<close>

datatype json =
    JNull
  | JBool bool
  | JNumber rat
  | JString jsstring
  | JArray "json list"
  | JObject "(jsstring \<times> json) list"

datatype jsval = Undefined | JV json

text \<open>
  Errors raised while a function runs.  \<open>Error m\<close> is an \<open>Error\<close> object with message
  \<open>m\<close> (thrown by the source itself or by the remote capability); the others are raised
  by the engine, with an engine-specific message.
\<close>

datatype js_error = Error jsstring | TypeError | SyntaxError | ReferenceError

datatype details = NoDetails | Details jsstring | MessageOf js_error

fun message :: "js_error \<Rightarrow> details" where
  "message (Error m) = Details m"
| "message e = MessageOf e"

section \<open>Strings\<close>

definition startsWith :: "jsstring \<Rightarrow> jsstring \<Rightarrow> bool" where
  "startsWith s p = (take (length p) s = p)"

definition endsWith :: "jsstring \<Rightarrow> jsstring \<Rightarrow> bool" where
  "endsWith s p = (length p \<le> length s \<and> drop (length s - length p) s = p)"

text \<open>The code units \<open>String.prototype.trim\<close> removes: white space and line terminators.\<close>

definition isWhiteSpace :: "jschar \<Rightarrow> bool" where
  "isWhiteSpace c \<longleftrightarrow>
     c = 0x09 \<or> c = 0x0A \<or> c = 0x0B \<or> c = 0x0C \<or> c = 0x0D \<or> c = 0x20 \<or> c = 0xA0 \<or>
     c = 0x1680 \<or> (0x2000 \<le> c \<and> c \<le> 0x200A) \<or> c = 0x2028 \<or> c = 0x2029 \<or>
     c = 0x202F \<or> c = 0x205F \<or> c = 0x3000 \<or> c = 0xFEFF"

definition trim :: "jsstring \<Rightarrow> jsstring" where
  "trim s = rev (dropWhile isWhiteSpace (rev (dropWhile isWhiteSpace s)))"

text \<open>
  \<open>content.replace(/^opening|\<newline>```$/g, '')\<close>: without the multiline flag the first
  alternative can only match at the start of the text and the second only at its end,
  and the second match starts after the first.  \<open>removeCodeBlockMarkers\<close> is the block
  that each of the four stages applies to the reply text before parsing it.
\<close>

definition replaceMarkers :: "jsstring \<Rightarrow> jsstring \<Rightarrow> jsstring" where
  "replaceMarkers opening s =
     (let s1 = (if startsWith s opening then drop (length opening) s else s)
      in if endsWith s1 (js ''\<newline>```'') then take (length s1 - 4) s1 else s1)"

definition removeCodeBlockMarkers :: "jsstring \<Rightarrow> jsstring" where
  "removeCodeBlockMarkers c =
     (if startsWith c (js ''```json'') then trim (replaceMarkers (js ''```json\<newline>'') c)
      else if startsWith c (js ''```'') then trim (replaceMarkers (js ''```\<newline>'') c)
      else c)"

text \<open>
  \<open>Array.prototype.slice\<close> and \<open>String.prototype.slice\<close>: a negative index counts from
  the end, and both indices are clamped to the length.
\<close>

definition relative_index :: "int \<Rightarrow> nat \<Rightarrow> nat" where
  "relative_index i len = (if i < 0 then nat (max (int len + i) 0) else min (nat i) len)"

definition slice :: "int \<Rightarrow> int \<Rightarrow> 'a list \<Rightarrow> 'a list" where
  "slice start end xs =
     (let k = relative_index start (length xs); final = relative_index end (length xs)
      in take (final - k) (drop k xs))"

definition slice_from :: "int \<Rightarrow> 'a list \<Rightarrow> 'a list" where
  "slice_from start xs = drop (relative_index start (length xs)) xs"

section \<open>JSON.parse\<close>

text \<open>
  \<open>JSON.parse\<close> on a string, after the JSON grammar of ECMA-262: the text is cut into
  tokens (white space between tokens is tab, line feed, carriage return and space only),
  and the tokens must form exactly one value.  \<open>None\<close> stands for the SyntaxError.
\<close>

datatype token =
    TLBrace | TRBrace | TLBracket | TRBracket | TColon | TComma
  | TString jsstring | TNumber rat | TTrue | TFalse | TNull

definition isJSONWhiteSpace :: "jschar \<Rightarrow> bool" where
  "isJSONWhiteSpace c \<longleftrightarrow> c = 0x09 \<or> c = 0x0A \<or> c = 0x0D \<or> c = 0x20"

definition isDigit :: "jschar \<Rightarrow> bool" where
  "isDigit c \<longleftrightarrow> 0x30 \<le> c \<and> c \<le> 0x39"

definition hexValue :: "jschar \<Rightarrow> jschar option" where
  "hexValue c =
     (if 0x30 \<le> c \<and> c \<le> 0x39 then Some (c - 0x30)
      else if 0x41 \<le> c \<and> c \<le> 0x46 then Some (c - 0x41 + 10)
      else if 0x61 \<le> c \<and> c \<le> 0x66 then Some (c - 0x61 + 10)
      else None)"

fun hex4 :: "jsstring \<Rightarrow> jschar option" where
  "hex4 [a, b, c, d] =
     (case (hexValue a, hexValue b, hexValue c, hexValue d) of
        (Some x, Some y, Some z, Some w) \<Rightarrow> Some (((x * 16 + y) * 16 + z) * 16 + w)
      | _ \<Rightarrow> None)"
| "hex4 _ = None"

definition escapeCharacter :: "jschar \<Rightarrow> jschar option" where
  "escapeCharacter e =
     (if e = 0x22 then Some 0x22
      else if e = 0x2F then Some 0x2F
      else if e = 0x5C then Some 0x5C
      else if e = 0x62 then Some 0x08
      else if e = 0x66 then Some 0x0C
      else if e = 0x6E then Some 0x0A
      else if e = 0x72 then Some 0x0D
      else if e = 0x74 then Some 0x09
      else None)"

fun lexString :: "jsstring \<Rightarrow> (jsstring \<times> jsstring) option" where
  "lexString [] = None"
| "lexString (c # cs) =
     (if c = 0x22 then Some ([], cs)
      else if c = 0x5C then
        (case cs of
           [] \<Rightarrow> None
         | e # es \<Rightarrow>
             if e = 0x75 then
               (case hex4 (take 4 es) of
                  None \<Rightarrow> None
                | Some u \<Rightarrow> map_option (\<lambda>(str, rest). (u # str, rest)) (lexString (drop 4 es)))
             else
               (case escapeCharacter e of
                  None \<Rightarrow> None
                | Some x \<Rightarrow> map_option (\<lambda>(str, rest). (x # str, rest)) (lexString es)))
      else if c < 0x20 then None
      else map_option (\<lambda>(str, rest). (c # str, rest)) (lexString cs))"

definition digitsValue :: "jsstring \<Rightarrow> nat" where
  "digitsValue ds = foldl (\<lambda>n d. 10 * n + unat (d - 0x30)) 0 ds"

definition numberValue :: "bool \<Rightarrow> jsstring \<Rightarrow> jsstring \<Rightarrow> int \<Rightarrow> rat" where
  "numberValue negative whole fraction e =
     (let m = of_nat (digitsValue (whole @ fraction)); x = e - int (length fraction);
          v = (if x < 0 then m / 10 ^ nat (- x) else m * 10 ^ nat x)
      in if negative then - v else v)"

definition lexInteger :: "jsstring \<Rightarrow> (jsstring \<times> jsstring) option" where
  "lexInteger s =
     (case s of
        [] \<Rightarrow> None
      | c # cs \<Rightarrow>
          if c = 0x30 then Some ([c], cs)
          else if isDigit c then Some (takeWhile isDigit s, dropWhile isDigit s)
          else None)"

definition lexFraction :: "jsstring \<Rightarrow> (jsstring \<times> jsstring) option" where
  "lexFraction s =
     (case s of
        [] \<Rightarrow> Some ([], s)
      | c # cs \<Rightarrow>
          if c = 0x2E then
            (if takeWhile isDigit cs = [] then None
             else Some (takeWhile isDigit cs, dropWhile isDigit cs))
          else Some ([], s))"

definition lexExponent :: "jsstring \<Rightarrow> (int \<times> jsstring) option" where
  "lexExponent s =
     (case s of
        [] \<Rightarrow> Some (0, s)
      | c # cs \<Rightarrow>
          if c = 0x65 \<or> c = 0x45 then
            (let negative = (case cs of [] \<Rightarrow> False | d # ds \<Rightarrow> d = 0x2D);
                 signed = (case cs of [] \<Rightarrow> False | d # ds \<Rightarrow> d = 0x2D \<or> d = 0x2B);
                 ds = (if signed then tl cs else cs)
             in if takeWhile isDigit ds = [] then None
                else Some ((if negative then - 1 else 1) * int (digitsValue (takeWhile isDigit ds)),
                           dropWhile isDigit ds))
          else Some (0, s))"

definition lexNumber :: "jsstring \<Rightarrow> (rat \<times> jsstring) option" where
  "lexNumber s =
     (let negative = (case s of [] \<Rightarrow> False | c # cs \<Rightarrow> c = 0x2D);
          s0 = (if negative then tl s else s)
      in case lexInteger s0 of
           None \<Rightarrow> None
         | Some (whole, s1) \<Rightarrow>
             (case lexFraction s1 of
                None \<Rightarrow> None
              | Some (fraction, s2) \<Rightarrow>
                  (case lexExponent s2 of
                     None \<Rightarrow> None
                   | Some (e, s3) \<Rightarrow> Some (numberValue negative whole fraction e, s3))))"

definition lexToken :: "jsstring \<Rightarrow> (token \<times> jsstring) option" where
  "lexToken s =
     (case s of
        [] \<Rightarrow> None
      | c # cs \<Rightarrow>
          if c = 0x7B then Some (TLBrace, cs)
          else if c = 0x7D then Some (TRBrace, cs)
          else if c = 0x5B then Some (TLBracket, cs)
          else if c = 0x5D then Some (TRBracket, cs)
          else if c = 0x3A then Some (TColon, cs)
          else if c = 0x2C then Some (TComma, cs)
          else if c = 0x22 then map_option (\<lambda>(str, rest). (TString str, rest)) (lexString cs)
          else if c = 0x2D \<or> isDigit c then map_option (\<lambda>(q, rest). (TNumber q, rest)) (lexNumber s)
          else if startsWith s (js ''true'') then Some (TTrue, drop 4 s)
          else if startsWith s (js ''false'') then Some (TFalse, drop 5 s)
          else if startsWith s (js ''null'') then Some (TNull, drop 4 s)
          else None)"

lemma lexString_length: "lexString s = Some (str, rest) \<Longrightarrow> length rest < length s"
proof (induction s arbitrary: str rest rule: lexString.induct)
  case 1
  then show ?case by simp
next
  case (2 c cs)
  show ?case
  proof (cases "c = 0x22")
    case True
    with 2(4) show ?thesis by simp
  next
    case notq: False
    show ?thesis
    proof (cases "c = 0x5C")
      case True
      then obtain e es where cs: "cs = e # es"
        using 2(4) notq by (cases cs) auto
      show ?thesis
      proof (cases "e = 0x75")
        case u: True
        then obtain x str' where "hex4 (take 4 es) = Some x" "lexString (drop 4 es) = Some (str', rest)"
          using 2(4) notq True cs by (auto split: option.splits)
        then have "length rest < length (drop 4 es)"
          using "2.IH"(1) [OF notq True cs u] by blast
        then show ?thesis by (simp add: cs)
      next
        case nu: False
        then obtain x str' where x: "escapeCharacter e = Some x" "lexString es = Some (str', rest)"
          using 2(4) notq True cs by (auto split: option.splits)
        then have "length rest < length es"
          using "2.IH"(2) [OF notq True cs nu] by blast
        then show ?thesis by (simp add: cs)
      qed
    next
      case False
      then obtain str' where "\<not> c < 0x20" "lexString cs = Some (str', rest)"
        using 2(4) notq by (auto split: if_splits)
      then have "length rest < length cs"
        using "2.IH"(3) [OF notq False] by blast
      then show ?thesis by simp
    qed
  qed
qed

lemma lexInteger_length: "lexInteger s = Some (ds, rest) \<Longrightarrow> length rest < length s"
  by (auto simp add: lexInteger_def split: list.splits if_splits
      intro: le_imp_less_Suc length_dropWhile_le)

lemma lexFraction_length: "lexFraction s = Some (ds, rest) \<Longrightarrow> length rest \<le> length s"
  by (auto simp add: lexFraction_def split: list.splits if_splits
      intro: le_SucI length_dropWhile_le)

lemma lexExponent_length: "lexExponent s = Some (e, rest) \<Longrightarrow> length rest \<le> length s"
  by (auto simp add: lexExponent_def Let_def split: list.splits if_splits
      intro: le_SucI length_dropWhile_le)

lemma lexNumber_length: "lexNumber s = Some (q, rest) \<Longrightarrow> length rest < length s"
proof -
  assume a: "lexNumber s = Some (q, rest)"
  define s0 where "s0 = (if (case s of [] \<Rightarrow> False | c # cs \<Rightarrow> c = 0x2D) then tl s else s)"
  have s0: "length s0 \<le> length s" by (simp add: s0_def)
  from a obtain whole s1 fraction s2 e where
    "lexInteger s0 = Some (whole, s1)" "lexFraction s1 = Some (fraction, s2)"
    "lexExponent s2 = Some (e, rest)"
    by (auto simp add: lexNumber_def Let_def s0_def split: option.splits)
  then show ?thesis
    using s0 lexInteger_length lexFraction_length lexExponent_length
    by (meson le_trans less_le_trans not_le_imp_less not_less)
qed

lemma lexToken_length: "lexToken s = Some (t, rest) \<Longrightarrow> length rest < length s"
  by (auto simp add: lexToken_def startsWith_def split: list.splits if_splits
      dest: lexString_length lexNumber_length less_SucI)

function tokenize :: "jsstring \<Rightarrow> token list option" where
  "tokenize s =
     (case dropWhile isJSONWhiteSpace s of
        [] \<Rightarrow> Some []
      | c # cs \<Rightarrow>
          (case lexToken (c # cs) of
             None \<Rightarrow> None
           | Some (t, rest) \<Rightarrow> map_option (Cons t) (tokenize rest)))"
  by pat_completeness auto
termination
proof (relation "measure length")
  show "wf (measure length)" by simp
next
  fix s :: jsstring and c cs x t rest
  assume "dropWhile isJSONWhiteSpace s = c # cs" "lexToken (c # cs) = Some x" "(t, rest) = x"
  then have "length rest < length (c # cs)" "length (c # cs) \<le> length s"
    using lexToken_length [of "c # cs" t rest] length_dropWhile_le [of isJSONWhiteSpace s]
    by auto
  then show "(rest, s) \<in> measure length" by simp
qed

declare tokenize.simps [simp del]

text \<open>
  The three mutually recursive functions of the syntactic grammar take fuel: every call
  spends one unit, and every nested call starts at least one token further on, so the
  number of tokens, which \<open>JSON_parse\<close> gives, is enough for any text.
\<close>

fun parseValue :: "nat \<Rightarrow> token list \<Rightarrow> (json \<times> token list) option"
  and parseElements :: "nat \<Rightarrow> token list \<Rightarrow> (json list \<times> token list) option"
  and parseMembers :: "nat \<Rightarrow> token list \<Rightarrow> ((jsstring \<times> json) list \<times> token list) option"
where
  "parseValue 0 ts = None"
| "parseValue (Suc n) [] = None"
| "parseValue (Suc n) (t # ts) =
     (case t of
        TNull \<Rightarrow> Some (JNull, ts)
      | TTrue \<Rightarrow> Some (JBool True, ts)
      | TFalse \<Rightarrow> Some (JBool False, ts)
      | TNumber q \<Rightarrow> Some (JNumber q, ts)
      | TString str \<Rightarrow> Some (JString str, ts)
      | TLBracket \<Rightarrow>
          (case ts of
             TRBracket # ts' \<Rightarrow> Some (JArray [], ts')
           | _ \<Rightarrow> map_option (\<lambda>(vs, ts'). (JArray vs, ts')) (parseElements n ts))
      | TLBrace \<Rightarrow>
          (case ts of
             TRBrace # ts' \<Rightarrow> Some (JObject [], ts')
           | _ \<Rightarrow> map_option (\<lambda>(kvs, ts'). (JObject kvs, ts')) (parseMembers n ts))
      | _ \<Rightarrow> None)"
| "parseElements 0 ts = None"
| "parseElements (Suc n) ts =
     (case parseValue n ts of
        Some (v, TComma # ts') \<Rightarrow> map_option (\<lambda>(vs, ts''). (v # vs, ts'')) (parseElements n ts')
      | Some (v, TRBracket # ts') \<Rightarrow> Some ([v], ts')
      | _ \<Rightarrow> None)"
| "parseMembers 0 ts = None"
| "parseMembers (Suc n) ts =
     (case ts of
        TString k # TColon # ts1 \<Rightarrow>
          (case parseValue n ts1 of
             Some (v, TComma # ts') \<Rightarrow>
               map_option (\<lambda>(kvs, ts''). ((k, v) # kvs, ts'')) (parseMembers n ts')
           | Some (v, TRBrace # ts') \<Rightarrow> Some ([(k, v)], ts')
           | _ \<Rightarrow> None)
      | _ \<Rightarrow> None)"

definition JSON_parse :: "jsstring \<Rightarrow> json option" where
  "JSON_parse text =
     (case tokenize text of
        None \<Rightarrow> None
      | Some ts \<Rightarrow>
          (case parseValue (length ts) ts of
             Some (v, []) \<Rightarrow> Some v
           | _ \<Rightarrow> None))"

section \<open>Reading parsed values\<close>

text \<open>
  \<open>ToBoolean\<close>.  A number literal is falsy when the double nearest to it is zero, that
  is when its magnitude is at most half the least positive double, \<open>2 ^ -1074\<close>.
\<close>

fun truthy :: "jsval \<Rightarrow> bool" where
  "truthy Undefined = False"
| "truthy (JV JNull) = False"
| "truthy (JV (JBool b)) = b"
| "truthy (JV (JNumber q)) = (\<bar>q\<bar> > 1 / 2 ^ 1075)"
| "truthy (JV (JString s)) = (s \<noteq> [])"
| "truthy (JV (JArray xs)) = True"
| "truthy (JV (JObject kvs)) = True"

text \<open>\<open>a || b\<close>\<close>

definition orElse :: "jsval \<Rightarrow> json \<Rightarrow> json" where
  "orElse a b = (case a of JV v \<Rightarrow> if truthy a then v else b | Undefined \<Rightarrow> b)"

text \<open>
  \<open>v.k\<close> for the field names the source reads (\<open>isError\<close>, \<open>error\<close>, \<open>productName\<close>,
  \<open>ingredients\<close>, \<open>answer\<close>, ...), none of which a built-in prototype defines: the last
  member of that name of an object, \<open>undefined\<close> on any other value except \<open>null\<close>, where
  the read raises a TypeError.
\<close>

fun readProperty :: "json \<Rightarrow> jsstring \<Rightarrow> js_error + jsval" where
  "readProperty JNull k = Inl TypeError"
| "readProperty (JObject kvs) k =
     Inr (case map_of (rev kvs) k of None \<Rightarrow> Undefined | Some v \<Rightarrow> JV v)"
| "readProperty v k = Inr Undefined"

text \<open>\<open>a?.k\<close>\<close>

fun readOptional :: "jsval \<Rightarrow> jsstring \<Rightarrow> jsval" where
  "readOptional (JV (JObject kvs)) k =
     (case map_of (rev kvs) k of None \<Rightarrow> Undefined | Some v \<Rightarrow> JV v)"
| "readOptional a k = Undefined"

text \<open>
  \<open>a.slice(start, end)\<close>: arrays and strings have the method; on every other value the
  call raises a TypeError (no such property to read on \<open>undefined\<close> and \<open>null\<close>, and
  nothing callable under that name on a number, a boolean or a parsed object).
\<close>

fun callSlice :: "int \<Rightarrow> int \<Rightarrow> jsval \<Rightarrow> js_error + json" where
  "callSlice start end (JV (JArray xs)) = Inr (JArray (slice start end xs))"
| "callSlice start end (JV (JString s)) = Inr (JString (slice start end s))"
| "callSlice start end a = Inl TypeError"

text \<open>\<open>a?.slice(start, end)\<close>\<close>

fun callSliceOptional :: "int \<Rightarrow> int \<Rightarrow> jsval \<Rightarrow> js_error + jsval" where
  "callSliceOptional start end Undefined = Inr Undefined"
| "callSliceOptional start end (JV JNull) = Inr Undefined"
| "callSliceOptional start end a = map_sum id JV (callSlice start end a)"

text \<open>
  Whether \<open>ToString\<close> raises a TypeError: it does on an object with a member named
  \<open>toString\<close> (which hides the inherited method and cannot be called), and on an array
  one of whose elements other than \<open>null\<close> does.
\<close>

fun toStringThrows :: "json \<Rightarrow> bool" where
  "toStringThrows (JObject kvs) = (js ''toString'' \<in> fst ` set kvs)"
| "toStringThrows (JArray xs) = (\<exists>x\<in>set xs. x \<noteq> JNull \<and> toStringThrows x)"
| "toStringThrows v = False"

text \<open>\<open>a.join(', ')\<close>: only arrays have the method.\<close>

fun callJoin :: "json \<Rightarrow> js_error + unit" where
  "callJoin (JArray xs) = (if toStringThrows (JArray xs) then Inl TypeError else Inr ())"
| "callJoin v = Inl TypeError"

section \<open>sessionManager.js\<close>

record entry =
  role :: jsstring
  content :: jsval
  timestamp :: int

record session =
  analysis :: json
  webInfo :: json
  formattedData :: json
  conversationHistory :: "entry list"
  createdAt :: int
  lastAccessed :: int

type_synonym sessions = "jsstring \<rightharpoonup> session"

definition SESSION_TIMEOUT :: int where
  "SESSION_TIMEOUT = 30 * 60 * 1000"

text \<open>
  The callback of \<open>setInterval\<close>: one sweep at clock reading \<open>now\<close>.
\<close>

definition expirySweep :: "int \<Rightarrow> sessions \<Rightarrow> sessions" where
  "expirySweep now m =
     (\<lambda>sessionId. case m sessionId of
        None \<Rightarrow> None
      | Some s \<Rightarrow> if now - lastAccessed s > SESSION_TIMEOUT then None else Some s)"

text \<open>
  Every read of \<open>Date.now()\<close> is a parameter of the function that makes it, in the order
  of the reads.  Each function returns its result and the map after the call.
\<close>

definition storeAnalysis ::
  "int \<Rightarrow> int \<Rightarrow> jsstring \<Rightarrow> json \<Rightarrow> json \<Rightarrow> json \<Rightarrow> sessions \<Rightarrow> session \<times> sessions" where
  "storeAnalysis t_created t_accessed sessionId a w f m =
     (let s = \<lparr>analysis = a, webInfo = w, formattedData = f, conversationHistory = [],
                createdAt = t_created, lastAccessed = t_accessed\<rparr>
      in (s, m(sessionId \<mapsto> s)))"

definition getAnalysis :: "int \<Rightarrow> jsstring \<Rightarrow> sessions \<Rightarrow> session option \<times> sessions" where
  "getAnalysis now sessionId m =
     (case m sessionId of
        None \<Rightarrow> (None, m)
      | Some s \<Rightarrow> (let s' = s\<lparr>lastAccessed := now\<rparr> in (Some s', m(sessionId \<mapsto> s'))))"

definition addToConversationHistory ::
  "int \<Rightarrow> int \<Rightarrow> jsstring \<Rightarrow> jsstring \<Rightarrow> jsval \<Rightarrow> sessions \<Rightarrow> session option \<times> sessions" where
  "addToConversationHistory t_entry t_accessed sessionId r c m =
     (case m sessionId of
        None \<Rightarrow> (None, m)
      | Some s \<Rightarrow>
          (let pushed = conversationHistory s @ [\<lparr>role = r, content = c, timestamp = t_entry\<rparr>];
               kept = (if length pushed > 10 then slice_from (- 10) pushed else pushed);
               s' = s\<lparr>conversationHistory := kept, lastAccessed := t_accessed\<rparr>
           in (Some s', m(sessionId \<mapsto> s'))))"

definition hasSession :: "jsstring \<Rightarrow> sessions \<Rightarrow> bool" where
  "hasSession sessionId m = (m sessionId \<noteq> None)"

definition deleteSession :: "jsstring \<Rightarrow> sessions \<Rightarrow> bool \<times> sessions" where
  "deleteSession sessionId m = (m sessionId \<noteq> None, m(sessionId := None))"

text \<open>
  A run of \<open>addToConversationHistory\<close> calls on one session id; each call is given as
  (role, content, the two clock readings).
\<close>

type_synonym append_call = "jsstring \<times> jsval \<times> int \<times> int"

definition entry_of :: "append_call \<Rightarrow> entry" where
  "entry_of = (\<lambda>(r, c, t_entry, t_accessed). \<lparr>role = r, content = c, timestamp = t_entry\<rparr>)"

definition appendCalls :: "jsstring \<Rightarrow> append_call list \<Rightarrow> sessions \<Rightarrow> sessions" where
  "appendCalls sessionId calls m =
     foldl (\<lambda>m' (r, c, t_entry, t_accessed).
              snd (addToConversationHistory t_entry t_accessed sessionId r c m')) m calls"

text \<open>The \<open>n\<close> most recent entries of a log, oldest first.\<close>

definition most_recent :: "nat \<Rightarrow> 'a list \<Rightarrow> 'a list" where
  "most_recent n xs = drop (length xs - n) xs"

section \<open>aiService.js\<close>

text \<open>
  The remote reasoning capability.  A stage makes at most one request; what comes back
  is a parameter of the stage: the call raises (or the reply holds no text, so that the
  first use of the text raises), or the reply holds a text.  Each stage returns its
  result together with the requests it has sent.
\<close>

datatype cap_reply = CapError js_error | CapContent jsstring

datatype cap_request =
    ExtractRequest jsstring jsstring
  | EnrichRequest json json
  | SummarizeRequest json json
  | RespondRequest json json "entry list" jsstring

definition parseContent :: "jsstring \<Rightarrow> json option" where
  "parseContent c = JSON_parse (removeCodeBlockMarkers c)"

datatype analysis_result = AnalysisOk json | AnalysisFailed json details

definition analyzeImage_caught :: "js_error \<Rightarrow> analysis_result" where
  "analyzeImage_caught e = AnalysisFailed (JString (js ''Failed to analyze image'')) (message e)"

definition analyzeImage ::
  "cap_reply \<Rightarrow> jsstring \<Rightarrow> jsstring \<Rightarrow> analysis_result \<times> cap_request list" where
  "analyzeImage reply imageBase64 mimeType =
     (if imageBase64 = [] then
        (analyzeImage_caught
           (Error (js ''Invalid image data: base64 string is empty or not a string'')), [])
      else if mimeType = [] \<or> \<not> startsWith mimeType (js ''image/'') then
        (analyzeImage_caught (Error (js ''Invalid MIME type: '' @ mimeType)), [])
      else
        (case reply of
           CapError e \<Rightarrow> (analyzeImage_caught e, [ExtractRequest mimeType imageBase64])
         | CapContent c \<Rightarrow>
             (case parseContent c of
                None \<Rightarrow> (analyzeImage_caught SyntaxError, [ExtractRequest mimeType imageBase64])
              | Some a \<Rightarrow>
                  (case (readProperty a (js ''isError''), readProperty a (js ''error'')) of
                     (Inr isError, Inr err) \<Rightarrow>
                       if truthy isError \<or> truthy err then
                         (AnalysisFailed (orElse err (JString (js ''Failed to analyze the food label'')))
                            (Details (js ''The model could not process the image as a food label'')),
                          [ExtractRequest mimeType imageBase64])
                       else (AnalysisOk a, [ExtractRequest mimeType imageBase64])
                   | (Inl e, _) \<Rightarrow> (analyzeImage_caught e, [ExtractRequest mimeType imageBase64])
                   | (_, Inl e) \<Rightarrow> (analyzeImage_caught e, [ExtractRequest mimeType imageBase64])))))"

datatype search_result = SearchOk json | SearchFailed jsstring json

definition searchProductInfo_caught :: search_result where
  "searchProductInfo_caught =
     SearchFailed (js ''Failed to fetch additional product information'')
       (JObject
          [(js ''ingredientInfo'', JArray []),
           (js ''nutritionalContext'', JString (js ''Additional information unavailable'')),
           (js ''recommendations'',
              JString (js ''Consult with a healthcare provider for personalized advice'')),
           (js ''comparisons'', JArray [])])"

definition searchProductInfo ::
  "cap_reply \<Rightarrow> json \<Rightarrow> json \<Rightarrow> search_result \<times> cap_request list" where
  "searchProductInfo reply productName ingredients =
     (if toStringThrows productName then (searchProductInfo_caught, [])
      else
        (case callSlice 0 10 (JV ingredients) of
           Inl e \<Rightarrow> (searchProductInfo_caught, [])
         | Inr first \<Rightarrow>
             (case callJoin first of
                Inl e \<Rightarrow> (searchProductInfo_caught, [])
              | Inr u \<Rightarrow>
                  (case reply of
                     CapError e \<Rightarrow> (searchProductInfo_caught, [EnrichRequest productName first])
                   | CapContent c \<Rightarrow>
                       (case parseContent c of
                          None \<Rightarrow> (searchProductInfo_caught, [EnrichRequest productName first])
                        | Some w \<Rightarrow> (SearchOk w, [EnrichRequest productName first]))))))"

text \<open>
  The summary built in the \<open>catch\<close> block of \<open>generateFormattedSummary\<close>.  The block runs
  outside any \<open>try\<close>: an error raised while the object is built leaves the function.
  Two reads can raise: \<open>analysis.productName\<close>, the first read of \<open>analysis\<close>, when
  \<open>analysis\<close> is \<open>null\<close>, and the call \<open>analysis.ingredients?.slice(0, 5)\<close>.
\<close>

definition field :: "json \<Rightarrow> string \<Rightarrow> jsval" where
  "field a k = readOptional (JV a) (js k)"

definition nested :: "json \<Rightarrow> string \<Rightarrow> string \<Rightarrow> jsval" where
  "nested a k1 k2 = readOptional (field a k1) (js k2)"

definition jsstr :: "string \<Rightarrow> json" where
  "jsstr s = JString (js s)"

definition fallbackSummary :: "json \<Rightarrow> js_error + json" where
  "fallbackSummary a =
     (case (readProperty a (js ''productName''), callSliceOptional 0 5 (field a ''ingredients'')) of
        (Inl e, _) \<Rightarrow> Inl e
      | (_, Inl e) \<Rightarrow> Inl e
      | (Inr productName, Inr main) \<Rightarrow>
          Inr (JObject
            [(js ''formatted'', JObject
              [(js ''quickVerdict'', JObject
                 [(js ''recommendation'', jsstr ''moderate''),
                  (js ''title'', jsstr ''Review Required''),
                  (js ''summary'', jsstr ''Unable to generate a detailed verdict. Please review the nutritional information carefully.''),
                  (js ''keyPoints'', JArray [jsstr ''Check ingredients list'',
                     jsstr ''Verify allergen information'', jsstr ''Compare with similar products'']),
                  (js ''bestFor'', JArray [jsstr ''General consumption'']),
                  (js ''avoidIf'', JArray [jsstr ''You have specific dietary restrictions''])]),
               (js ''overview'', JObject
                 [(js ''productName'', orElse productName (jsstr ''Unknown Product'')),
                  (js ''brand'', orElse (field a ''brandName'') (jsstr ''Unknown Brand'')),
                  (js ''tagline'', jsstr ''Nutritional information available''),
                  (js ''highlights'', JArray [jsstr ''See details below''])]),
               (js ''nutrition'', JObject
                 [(js ''calories'', orElse (nested a ''nutritionFacts'' ''calories'') (JNumber 0)),
                  (js ''servingSize'', orElse (nested a ''nutritionFacts'' ''servingSize'') (jsstr ''N/A'')),
                  (js ''macros'', JObject
                    [(js ''fat'', JObject
                       [(js ''amount'', orElse (nested a ''nutritionFacts'' ''totalFat'') (jsstr ''N/A'')),
                        (js ''percentage'', JNumber 0)]),
                     (js ''carbs'', JObject
                       [(js ''amount'',
                           orElse (nested a ''nutritionFacts'' ''totalCarbohydrate'') (jsstr ''N/A'')),
                        (js ''percentage'', JNumber 0)]),
                     (js ''protein'', JObject
                       [(js ''amount'', orElse (nested a ''nutritionFacts'' ''protein'') (jsstr ''N/A'')),
                        (js ''percentage'', JNumber 0)])]),
                  (js ''micronutrients'', JArray [])]),
               (js ''ingredients'', JObject
                 [(js ''main'', orElse main (JArray [])),
                  (js ''beneficial'', JArray []),
                  (js ''concerning'', JArray []),
                  (js ''additives'', JArray [])]),
               (js ''allergens'', orElse (field a ''allergens'') (JArray [])),
               (js ''certifications'', orElse (field a ''certifications'') (JArray [])),
               (js ''healthScore'', JObject
                 [(js ''overall'', JNumber 70),
                  (js ''category'', jsstr ''Moderate''),
                  (js ''pros'', JArray [jsstr ''Contains essential nutrients'']),
                  (js ''cons'', JArray [jsstr ''May contain additives''])]),
               (js ''recommendations'', jsstr ''Consume in moderation as part of a balanced diet.'')])]))"

text \<open>
  \<open>generateFormattedSummary\<close> returns \<open>{success: true, data}\<close> whenever it returns; the
  result is the data, or the error that leaves the function.
\<close>

definition generateFormattedSummary ::
  "cap_reply \<Rightarrow> json \<Rightarrow> json \<Rightarrow> (js_error + json) \<times> cap_request list" where
  "generateFormattedSummary reply a w =
     (case reply of
        CapError e \<Rightarrow> (fallbackSummary a, [SummarizeRequest a w])
      | CapContent c \<Rightarrow>
          (case parseContent c of
             None \<Rightarrow> (fallbackSummary a, [SummarizeRequest a w])
           | Some d \<Rightarrow> (Inr d, [SummarizeRequest a w])))"

datatype followup_result = FollowUpOk json | FollowUpFailed jsstring details

definition plainTextAnswer :: "jsstring \<Rightarrow> json" where
  "plainTextAnswer c =
     JObject
       [(js ''answer'', JString c),
        (js ''suggestedQuestions'',
           JArray [jsstr ''What are the main ingredients?'', jsstr ''Is this product healthy?'',
                   jsstr ''What are the allergens?''])]"

definition handleFollowUp ::
  "cap_reply \<Rightarrow> json \<Rightarrow> json \<Rightarrow> jsstring \<Rightarrow> entry list \<Rightarrow> followup_result \<times> cap_request list" where
  "handleFollowUp reply a w question history =
     (case reply of
        CapError e \<Rightarrow>
          (FollowUpFailed (js ''Failed to process follow-up question'') (message e),
           [RespondRequest a w history question])
      | CapContent c \<Rightarrow>
          (case parseContent c of
             None \<Rightarrow>
               (FollowUpOk (plainTextAnswer (removeCodeBlockMarkers c)),
                [RespondRequest a w history question])
           | Some responseData \<Rightarrow> (FollowUpOk responseData, [RespondRequest a w history question])))"

section \<open>The server\<close>

datatype response =
    Failure nat json details
  | AnalyzeSuccess jsstring json "json list"
  | ChatSuccess jsval json "entry list"
  | DeleteReply bool jsstring

text \<open>
  The names the server binds from \<open>require('./sessionManager')\<close>, and the names that
  module exports.
\<close>

definition sessionManager_exports :: "string list" where
  "sessionManager_exports =
     [''storeAnalysis'', ''getAnalysis'', ''updateSession'', ''addToConversationHistory'',
      ''hasSession'', ''deleteSession'', ''getSessionStats'']"

definition sessionManager_imports :: "string list" where
  "sessionManager_imports =
     [''storeAnalysis'', ''getAnalysis'', ''updateSession'', ''addToConversationHistory'',
      ''hasSession'', ''getSessionStats'']"

definition SUPPORTED_IMAGE_TYPES :: "jsstring list" where
  "SUPPORTED_IMAGE_TYPES = [js ''image/jpeg'', js ''image/png'', js ''image/gif'', js ''image/webp'']"

definition fileSize_limit :: nat where
  "fileSize_limit = 10 * 1024 * 1024"

record upload =
  mimetype :: jsstring
  buffer :: "8 word list"

text \<open>
  The \<open>fileFilter\<close> of the upload middleware: it accepts the file, or passes an error on.
\<close>

definition fileFilter :: "upload \<Rightarrow> js_error + bool" where
  "fileFilter file =
     (if mimetype file \<in> set SUPPORTED_IMAGE_TYPES then Inr True
      else Inl (Error (js ''Unsupported file type'')))"

text \<open>\<open>buffer.toString('base64')\<close>\<close>

definition base64_alphabet :: jsstring where
  "base64_alphabet = js ''ABCDEFGHIJKLMNOPQRSTUVWXYZabcdefghijklmnopqrstuvwxyz0123456789+/''"

fun base64 :: "8 word list \<Rightarrow> jsstring" where
  "base64 [] = []"
| "base64 [a] =
     (let n = unat a * 65536
      in [base64_alphabet ! (n div 262144), base64_alphabet ! (n div 4096 mod 64), 0x3D, 0x3D])"
| "base64 [a, b] =
     (let n = unat a * 65536 + unat b * 256
      in [base64_alphabet ! (n div 262144), base64_alphabet ! (n div 4096 mod 64),
          base64_alphabet ! (n div 64 mod 64), 0x3D])"
| "base64 (a # b # c # bytes) =
     (let n = unat a * 65536 + unat b * 256 + unat c
      in [base64_alphabet ! (n div 262144), base64_alphabet ! (n div 4096 mod 64),
          base64_alphabet ! (n div 64 mod 64), base64_alphabet ! (n mod 64)] @ base64 bytes)"

text \<open>
  The error-handling middleware, reached by an error of the upload middleware and by an
  error a handler raises outside its own \<open>try\<close>.  \<open>development\<close> is
  \<open>process.env.NODE_ENV === 'development'\<close>.
\<close>

datatype middleware_error = MulterError jsstring | Raised js_error

definition errorHandler :: "bool \<Rightarrow> middleware_error \<Rightarrow> response" where
  "errorHandler development err =
     (case err of
        MulterError m \<Rightarrow> Failure 400 (jsstr ''File upload error'') (Details m)
      | Raised e \<Rightarrow>
          Failure 500 (jsstr ''Internal server error'')
            (if development then message e else Details (js ''Something went wrong'')))"

definition degradedWebInfo :: json where
  "degradedWebInfo =
     JObject
       [(js ''ingredientInfo'', JArray []),
        (js ''nutritionalContext'', jsstr ''Additional information unavailable''),
        (js ''recommendations'', jsstr ''Consult with a healthcare provider''),
        (js ''comparisons'', JArray [])]"

definition analyze_suggestedQuestions :: "json list" where
  "analyze_suggestedQuestions =
     [jsstr ''What are the main health benefits?'', jsstr ''Are there any concerning ingredients?'',
      jsstr ''Is this suitable for my diet?'', jsstr ''How does this compare to similar products?'']"

definition analyze_caught :: "js_error \<Rightarrow> response" where
  "analyze_caught e = Failure 500 (jsstr ''Failed to process image'') (message e)"

text \<open>
  The handler of \<open>POST /api/analyze\<close>, given the file the upload middleware accepted,
  the replies of the capability to the three stages, the identifier \<open>uuidv4()\<close> returns
  and the two clock readings of \<open>storeAnalysis\<close>.
\<close>

definition analyze_handler ::
  "cap_reply \<Rightarrow> cap_reply \<Rightarrow> cap_reply \<Rightarrow> jsstring \<Rightarrow> int \<Rightarrow> int \<Rightarrow> upload \<Rightarrow> sessions \<Rightarrow>
   response \<times> sessions \<times> cap_request list" where
  "analyze_handler reply1 reply2 reply3 newId t_created t_accessed file m =
     (let (analysisResult, sent1) = analyzeImage reply1 (base64 (buffer file)) (mimetype file)
      in case analysisResult of
           AnalysisFailed err det \<Rightarrow> (Failure 500 err det, m, sent1)
         | AnalysisOk a \<Rightarrow>
             (case (readProperty a (js ''productName''), readProperty a (js ''ingredients'')) of
                (Inl e, _) \<Rightarrow> (analyze_caught e, m, sent1)
              | (_, Inl e) \<Rightarrow> (analyze_caught e, m, sent1)
              | (Inr productName, Inr ingredients) \<Rightarrow>
                  (let (webSearchResult, sent2) =
                         searchProductInfo reply2 (orElse productName (jsstr ''Unknown Product''))
                           (orElse ingredients (JArray []));
                       w = (case webSearchResult of
                              SearchOk found \<Rightarrow> found
                            | SearchFailed err fallback \<Rightarrow> degradedWebInfo);
                       (summaryResult, sent3) = generateFormattedSummary reply3 a w
                   in case summaryResult of
                        Inl e \<Rightarrow> (analyze_caught e, m, sent1 @ sent2 @ sent3)
                      | Inr formatted \<Rightarrow>
                          (AnalyzeSuccess newId formatted analyze_suggestedQuestions,
                           snd (storeAnalysis t_created t_accessed newId a w formatted m),
                           sent1 @ sent2 @ sent3))))"

text \<open>
  The route: the upload middleware (file filter, then size limit) before the handler.
  \<open>file\<close> is the part named \<open>image\<close> of the request, if there is one.
\<close>

definition analyze_route ::
  "bool \<Rightarrow> cap_reply \<Rightarrow> cap_reply \<Rightarrow> cap_reply \<Rightarrow> jsstring \<Rightarrow> int \<Rightarrow> int \<Rightarrow> upload option \<Rightarrow>
   sessions \<Rightarrow> response \<times> sessions \<times> cap_request list" where
  "analyze_route development reply1 reply2 reply3 newId t_created t_accessed file m =
     (case file of
        None \<Rightarrow> (Failure 400 (jsstr ''No file uploaded or unsupported file type'') NoDetails, m, [])
      | Some f \<Rightarrow>
          (case fileFilter f of
             Inl e \<Rightarrow> (errorHandler development (Raised e), m, [])
           | Inr accepted \<Rightarrow>
               if length (buffer f) > fileSize_limit then
                 (errorHandler development (MulterError (js ''File too large'')), m, [])
               else analyze_handler reply1 reply2 reply3 newId t_created t_accessed f m))"

text \<open>
  \<open>POST /api/chat\<close>.  The five clock readings are those of \<open>getAnalysis\<close> and of the two
  calls of \<open>addToConversationHistory\<close>.  \<open>sessionData\<close> is the object held in the map:
  what \<open>addToConversationHistory\<close> changes is seen through it.  The handler is taken on
  its own: no other request changes the map while it waits for the capability.
\<close>

type_synonym chat_times = "int \<times> int \<times> int \<times> int \<times> int"

definition chat_caught :: "js_error \<Rightarrow> response" where
  "chat_caught e = Failure 500 (jsstr ''Failed to process message'') (message e)"

definition chat_handler ::
  "cap_reply \<Rightarrow> chat_times \<Rightarrow> jsstring \<Rightarrow> jsval \<Rightarrow> sessions \<Rightarrow>
   response \<times> sessions \<times> cap_request list" where
  "chat_handler reply readings sessionId message_field m =
     (case message_field of
        JV (JString msg) \<Rightarrow>
          if msg = [] \<or> trim msg = [] then
            (Failure 400 (jsstr ''Message is required and must be a non-empty string'') NoDetails, m, [])
          else
            (let (t_get, t_user, t_user_accessed, t_answer, t_answer_accessed) = readings;
                 (found, m1) = getAnalysis t_get sessionId m
             in case found of
                  None \<Rightarrow> (Failure 404 (jsstr ''Session not found or expired'') NoDetails, m1, [])
                | Some sessionData0 \<Rightarrow>
                    (let (appended, m2) =
                           addToConversationHistory t_user t_user_accessed sessionId (js ''user'')
                             (JV (JString msg)) m1;
                         sessionData = (case appended of Some s \<Rightarrow> s | None \<Rightarrow> sessionData0);
                         (followUpResult, sent) =
                           handleFollowUp reply (analysis sessionData)
                             (orElse (JV (webInfo sessionData)) (JObject [])) msg
                             (conversationHistory sessionData)
                     in case followUpResult of
                          FollowUpFailed err det \<Rightarrow> (Failure 500 (JString err) det, m2, sent)
                        | FollowUpOk aiResponse \<Rightarrow>
                            (case (readProperty aiResponse (js ''answer''),
                                   readProperty aiResponse (js ''suggestedQuestions'')) of
                               (Inl e, _) \<Rightarrow> (chat_caught e, m2, sent)
                             | (_, Inl e) \<Rightarrow> (chat_caught e, m2, sent)
                             | (Inr answer, Inr suggested) \<Rightarrow>
                                 (let (appended', m3) =
                                        addToConversationHistory t_answer t_answer_accessed sessionId
                                          (js ''assistant'') answer m2;
                                      sessionData' =
                                        (case appended' of Some s \<Rightarrow> s | None \<Rightarrow> sessionData)
                                  in (ChatSuccess answer (orElse suggested (JArray []))
                                        (conversationHistory sessionData'),
                                      m3, sent)))))
      | _ \<Rightarrow>
          (Failure 400 (jsstr ''Message is required and must be a non-empty string'') NoDetails, m, []))"

text \<open>
  \<open>validateSession\<close>, on the \<open>X-Session-ID\<close> header of the request: it answers the
  request itself, or hands the session id on to the handler.
\<close>

definition validateSession :: "jsstring option \<Rightarrow> sessions \<Rightarrow> response + jsstring" where
  "validateSession header m =
     (case header of
        None \<Rightarrow> Inl (Failure 400 (jsstr ''Session ID is required in X-Session-ID header'') NoDetails)
      | Some sessionId \<Rightarrow>
          if sessionId = [] then
            Inl (Failure 400 (jsstr ''Session ID is required in X-Session-ID header'') NoDetails)
          else if \<not> hasSession sessionId m then
            Inl (Failure 404 (jsstr ''Session not found or expired. Please scan the product again.'')
                   NoDetails)
          else Inr sessionId)"

definition chat_route ::
  "cap_reply \<Rightarrow> chat_times \<Rightarrow> jsstring option \<Rightarrow> jsval \<Rightarrow> sessions \<Rightarrow>
   response \<times> sessions \<times> cap_request list" where
  "chat_route reply readings header message_field m =
     (case validateSession header m of
        Inl answered \<Rightarrow> (answered, m, [])
      | Inr sessionId \<Rightarrow> chat_handler reply readings sessionId message_field m)"

text \<open>
  \<open>DELETE /api/session/:sessionId\<close>.  The handler calls \<open>deleteSession\<close>; evaluating a
  name the module has not bound raises a ReferenceError, which reaches the
  error-handling middleware.
\<close>

definition delete_route :: "bool \<Rightarrow> jsstring \<Rightarrow> sessions \<Rightarrow> response \<times> sessions" where
  "delete_route development sessionId m =
     (if ''deleteSession'' \<in> set sessionManager_imports then
        (let (deleted, m') = deleteSession sessionId m
         in (DeleteReply deleted (js (if deleted then ''Session deleted'' else ''Session not found'')),
             m'))
      else (errorHandler development (Raised ReferenceError), m))"

section \<open>Results of a route\<close>

fun isFailure :: "response \<Rightarrow> bool" where
  "isFailure (Failure status e d) = True"
| "isFailure r = False"

section \<open>Session store: properties\<close>

lemma slice_from_most_recent: "slice_from (- 10) xs = most_recent 10 xs"
  by (cases "10 \<le> length xs")
     (simp_all add: slice_from_def most_recent_def relative_index_def nat_diff_distrib')

lemma most_recent_short: "length xs \<le> n \<Longrightarrow> most_recent n xs = xs"
  by (simp add: most_recent_def)

lemma length_most_recent: "length (most_recent n xs) \<le> n"
  by (simp add: most_recent_def)

lemma most_recent_snoc: "most_recent n (most_recent n xs @ [x]) = most_recent n (xs @ [x])"
proof (cases "n \<le> length xs")
  case True
  then show ?thesis
    by (simp add: most_recent_def Suc_diff_le)
next
  case False
  then show ?thesis by (simp add: most_recent_def)
qed

lemma addToConversationHistory_present:
  assumes "m sessionId = Some s"
  shows "addToConversationHistory t ta sessionId r c m =
           (Some (s\<lparr>conversationHistory :=
                      most_recent 10 (conversationHistory s @ [\<lparr>role = r, content = c, timestamp = t\<rparr>]),
                    lastAccessed := ta\<rparr>),
            m(sessionId \<mapsto> s\<lparr>conversationHistory :=
                      most_recent 10 (conversationHistory s @ [\<lparr>role = r, content = c, timestamp = t\<rparr>]),
                    lastAccessed := ta\<rparr>))"
  using assms
  by (simp add: addToConversationHistory_def Let_def most_recent_short slice_from_most_recent)

lemma appendCalls_history:
  assumes "m sessionId = Some s"
  shows "\<exists>s'. appendCalls sessionId calls m sessionId = Some s' \<and>
           conversationHistory s' =
             (if calls = [] then conversationHistory s
              else most_recent 10 (conversationHistory s @ map entry_of calls))"
  using assms
proof (induction calls arbitrary: m s rule: rev_induct)
  case Nil
  then show ?case by (simp add: appendCalls_def)
next
  case (snoc call calls)
  obtain r c t ta where call: "call = (r, c, t, ta)"
    by (cases call) auto
  from snoc.IH [of m s] snoc.prems obtain s1 where
    s1: "appendCalls sessionId calls m sessionId = Some s1"
    and h1: "conversationHistory s1 =
      (if calls = [] then conversationHistory s
       else most_recent 10 (conversationHistory s @ map entry_of calls))"
    by blast
  have step: "appendCalls sessionId (calls @ [call]) m =
      snd (addToConversationHistory t ta sessionId r c (appendCalls sessionId calls m))"
    by (simp add: appendCalls_def call)
  define e where "e = \<lparr>role = r, content = c, timestamp = t\<rparr>"
  define s2 where
    "s2 = s1\<lparr>conversationHistory := most_recent 10 (conversationHistory s1 @ [e]),
              lastAccessed := ta\<rparr>"
  have "addToConversationHistory t ta sessionId r c (appendCalls sessionId calls m) =
          (Some s2, (appendCalls sessionId calls m)(sessionId \<mapsto> s2))"
    unfolding s2_def e_def using s1 by (rule addToConversationHistory_present)
  then have s2: "appendCalls sessionId (calls @ [call]) m sessionId = Some s2"
    by (simp add: step)
  have e: "map entry_of (calls @ [call]) = map entry_of calls @ [e]"
    by (simp add: entry_of_def call e_def)
  have "conversationHistory s2 = most_recent 10 (conversationHistory s @ map entry_of calls @ [e])"
  proof (cases "calls = []")
    case True
    then show ?thesis using h1 by (simp add: s2_def)
  next
    case False
    then have "conversationHistory s2 =
        most_recent 10 (most_recent 10 (conversationHistory s @ map entry_of calls) @ [e])"
      using h1 by (simp add: s2_def)
    then show ?thesis by (simp add: most_recent_snoc)
  qed
  then show ?case
    using s2 e by simp
qed

text \<open>
  C1.  Whatever calls of \<open>addToConversationHistory\<close> are made on a session whose log
  holds at most 10 entries (a new session holds none), the log afterwards holds at most
  10 entries, and it is the 10 most recent of all the entries, in their original order:
  the oldest are dropped first.
\<close>

theorem history_bounded_fifo:
  assumes "m sessionId = Some s" and "length (conversationHistory s) \<le> 10"
  shows "\<exists>s'. appendCalls sessionId calls m sessionId = Some s' \<and>
           length (conversationHistory s') \<le> 10 \<and>
           conversationHistory s' = most_recent 10 (conversationHistory s @ map entry_of calls)"
proof -
  from appendCalls_history [of m sessionId s calls] assms(1) obtain s' where
    s': "appendCalls sessionId calls m sessionId = Some s'"
    and h: "conversationHistory s' =
      (if calls = [] then conversationHistory s
       else most_recent 10 (conversationHistory s @ map entry_of calls))"
    by blast
  have eq: "conversationHistory s' = most_recent 10 (conversationHistory s @ map entry_of calls)"
    using h assms(2) by (simp add: most_recent_short)
  show ?thesis
    using s' eq length_most_recent [of 10 "conversationHistory s @ map entry_of calls"] by simp
qed

theorem history_bounded_fifo_witness:
  "\<exists>s'. appendCalls (js ''s1'')
           [(js ''user'', Undefined, 1, 1), (js ''assistant'', Undefined, 2, 2),
            (js ''user'', Undefined, 3, 3), (js ''assistant'', Undefined, 4, 4),
            (js ''user'', Undefined, 5, 5), (js ''assistant'', Undefined, 6, 6),
            (js ''user'', Undefined, 7, 7), (js ''assistant'', Undefined, 8, 8),
            (js ''user'', Undefined, 9, 9), (js ''assistant'', Undefined, 10, 10),
            (js ''user'', Undefined, 11, 11)]
           (snd (storeAnalysis 0 0 (js ''s1'') JNull JNull JNull Map.empty)) (js ''s1'') = Some s' \<and>
         length (conversationHistory s') \<le> 10 \<and>
         map timestamp (conversationHistory s') = [2, 3, 4, 5, 6, 7, 8, 9, 10, 11]"
  using history_bounded_fifo
    [of "snd (storeAnalysis 0 0 (js ''s1'') JNull JNull JNull Map.empty)" "js ''s1''"
        "fst (storeAnalysis 0 0 (js ''s1'') JNull JNull JNull Map.empty)"
        "[(js ''user'', Undefined, 1, 1), (js ''assistant'', Undefined, 2, 2),
          (js ''user'', Undefined, 3, 3), (js ''assistant'', Undefined, 4, 4),
          (js ''user'', Undefined, 5, 5), (js ''assistant'', Undefined, 6, 6),
          (js ''user'', Undefined, 7, 7), (js ''assistant'', Undefined, 8, 8),
          (js ''user'', Undefined, 9, 9), (js ''assistant'', Undefined, 10, 10),
          (js ''user'', Undefined, 11, 11)]"]
  by (auto simp add: storeAnalysis_def Let_def most_recent_def entry_of_def)

text \<open>
  C2, as the source has it.  \<open>getAnalysis\<close> never looks at the age of a session: it
  returns absent exactly when the map holds nothing under the id, and otherwise returns
  the session with \<open>lastAccessed\<close> set to the clock reading, however old the session is.
  A session past the timeout is absent only after a sweep has run.
\<close>

theorem getAnalysis_absent_iff_not_stored:
  "(fst (getAnalysis now sessionId m) = None \<longleftrightarrow> m sessionId = None) \<and>
   (\<forall>s. m sessionId = Some s \<longrightarrow>
        getAnalysis now sessionId m =
          (Some (s\<lparr>lastAccessed := now\<rparr>), m(sessionId \<mapsto> s\<lparr>lastAccessed := now\<rparr>))) \<and>
   (\<forall>s t. m sessionId = Some s \<and> t - lastAccessed s > SESSION_TIMEOUT \<longrightarrow>
        fst (getAnalysis now sessionId (expirySweep t m)) = None)"
  by (auto simp add: getAnalysis_def expirySweep_def Let_def split: option.splits)

theorem getAnalysis_absent_iff_not_stored_witness:
  "fst (getAnalysis 1800001 (js ''a'') (snd (storeAnalysis 0 0 (js ''a'') JNull JNull JNull Map.empty)))
     = Some \<lparr>analysis = JNull, webInfo = JNull, formattedData = JNull, conversationHistory = [],
              createdAt = 0, lastAccessed = 1800001\<rparr> \<and>
   fst (getAnalysis 1800001 (js ''a'')
         (expirySweep 1800001 (snd (storeAnalysis 0 0 (js ''a'') JNull JNull JNull Map.empty)))) = None"
  using getAnalysis_absent_iff_not_stored
    [of 1800001 "js ''a''" "snd (storeAnalysis 0 0 (js ''a'') JNull JNull JNull Map.empty)"]
  by (simp add: storeAnalysis_def Let_def SESSION_TIMEOUT_def)

theorem getAnalysis_expired_counterexample:
  "1800001 - lastAccessed (fst (storeAnalysis 0 0 (js ''a'') JNull JNull JNull Map.empty))
     > SESSION_TIMEOUT \<and>
   fst (getAnalysis 1800001 (js ''a'') (snd (storeAnalysis 0 0 (js ''a'') JNull JNull JNull Map.empty)))
     \<noteq> None"
  by (simp add: storeAnalysis_def getAnalysis_def Let_def SESSION_TIMEOUT_def)

text \<open>
  C10.  \<open>storeAnalysis\<close> writes a new session under the id whatever the map held there:
  a session already stored under the id has no influence on the result, the new session
  has an empty log and the clock readings of the call as its timestamps.
\<close>

theorem storeAnalysis_upsert:
  "storeAnalysis t_created t_accessed sessionId a w f (m(sessionId \<mapsto> old)) =
     storeAnalysis t_created t_accessed sessionId a w f m \<and>
   snd (storeAnalysis t_created t_accessed sessionId a w f (m(sessionId \<mapsto> old))) sessionId =
     Some \<lparr>analysis = a, webInfo = w, formattedData = f, conversationHistory = [],
            createdAt = t_created, lastAccessed = t_accessed\<rparr> \<and>
   snd (storeAnalysis t_created t_accessed sessionId a w f (m(sessionId \<mapsto> old))) =
     m(sessionId \<mapsto> \<lparr>analysis = a, webInfo = w, formattedData = f, conversationHistory = [],
            createdAt = t_created, lastAccessed = t_accessed\<rparr>)"
  by (simp add: storeAnalysis_def Let_def)

section \<open>JSON.parse: surrounding white space\<close>

lemma whitespace_range: "isWhiteSpace c \<Longrightarrow> unat c < 0x22 \<or> 0x7D < unat c"
  unfolding isWhiteSpace_def word_le_nat_alt
  by (elim disjE) simp_all

lemma lexToken_range: "lexToken (c # cs) = Some r \<Longrightarrow> 0x22 \<le> unat c \<and> unat c \<le> 0x7D"
  unfolding lexToken_def isDigit_def startsWith_def js_def word_le_nat_alt
  by (auto split: if_splits)

lemma whitespace_not_token_start:
  "isWhiteSpace c \<Longrightarrow> lexToken (c # cs) = None"
  using whitespace_range [of c] lexToken_range [of c cs]
  by (cases "lexToken (c # cs)") auto

lemma whitespace_not_digit: "isWhiteSpace c \<Longrightarrow> \<not> isDigit c"
  using whitespace_range [of c] by (auto simp add: isDigit_def word_le_nat_alt)

lemma whitespace_not_hex: "isWhiteSpace c \<Longrightarrow> hexValue c = None"
  using whitespace_range [of c] by (auto simp add: hexValue_def word_le_nat_alt)

lemma whitespace_not_escape: "isWhiteSpace c \<Longrightarrow> escapeCharacter c = None"
  using whitespace_range [of c] by (auto simp add: escapeCharacter_def)

lemma whitespace_not_char:
  "isWhiteSpace c \<Longrightarrow>
     c \<noteq> 0x22 \<and> c \<noteq> 0x5C \<and> c \<noteq> 0x75 \<and> c \<noteq> 0x2E \<and> c \<noteq> 0x65 \<and> c \<noteq> 0x45 \<and>
     c \<noteq> 0x2D \<and> c \<noteq> 0x2B \<and> c \<noteq> 0x30 \<and> c \<noteq> 0x60"
  using whitespace_range [of c] by auto

lemma JSON_whitespace_is_whitespace: "isJSONWhiteSpace c \<Longrightarrow> isWhiteSpace c"
  by (auto simp add: isJSONWhiteSpace_def isWhiteSpace_def)

lemma tokenize_Nil: "tokenize [] = Some []"
  by (simp add: tokenize.simps)

lemma tokenize_skip: "isJSONWhiteSpace c \<Longrightarrow> tokenize (c # s) = tokenize s"
  by (simp add: tokenize.simps [of "c # s"] tokenize.simps [of s])

lemma tokenize_other_whitespace:
  "isWhiteSpace c \<Longrightarrow> \<not> isJSONWhiteSpace c \<Longrightarrow> tokenize (c # s) = None"
  by (simp add: tokenize.simps [of "c # s"] whitespace_not_token_start)

lemma tokenize_trim_start:
  "tokenize s = Some ts \<Longrightarrow> tokenize (dropWhile isWhiteSpace s) = Some ts"
proof (induction s)
  case Nil
  then show ?case by simp
next
  case (Cons c s)
  show ?case
  proof (cases "isWhiteSpace c")
    case True
    then have "isJSONWhiteSpace c"
      using Cons.prems tokenize_other_whitespace [of c s] by auto
    then show ?thesis
      using Cons True by (simp add: tokenize_skip)
  next
    case False
    then show ?thesis using Cons.prems by simp
  qed
qed

lemma tokenize_whitespace_only:
  "\<forall>c\<in>set w. isWhiteSpace c \<Longrightarrow> tokenize w = Some ts \<Longrightarrow> ts = []"
proof (induction w)
  case Nil
  then show ?case by (simp add: tokenize_Nil)
next
  case (Cons c w)
  then have "isJSONWhiteSpace c"
    using tokenize_other_whitespace [of c w] by auto
  then show ?case using Cons by (simp add: tokenize_skip)
qed

lemma takeWhile_append_none:
  "\<forall>c\<in>set w. \<not> P c \<Longrightarrow> takeWhile P (xs @ w) = takeWhile P xs"
  by (induction xs) (auto simp add: takeWhile_eq_Nil_iff)

lemma dropWhile_append_none:
  "\<forall>c\<in>set w. \<not> P c \<Longrightarrow> dropWhile P (xs @ w) = dropWhile P xs @ w"
  by (induction xs) (auto simp add: dropWhile_eq_self_iff)

lemma startsWith_append:
  assumes "startsWith (u @ w) p" "\<forall>c\<in>set w. isWhiteSpace c" "\<forall>c\<in>set p. \<not> isWhiteSpace c"
  shows "length p \<le> length u \<and> startsWith u p"
proof (cases "length p \<le> length u")
  case True
  then show ?thesis using assms(1) by (simp add: startsWith_def)
next
  case False
  then have "p = u @ take (length p - length u) w" "take (length p - length u) w \<noteq> []"
    using assms(1) by (auto simp add: startsWith_def)
  then obtain c where "c \<in> set (take (length p - length u) w)" "c \<in> set p"
    by (metis Un_iff hd_in_set set_append)
  then show ?thesis
    using assms(2,3) by (meson in_set_takeD)
qed

lemma lexString_whitespace:
  "\<forall>c\<in>set w. isWhiteSpace c \<Longrightarrow> lexString w = None"
proof (induction w)
  case Nil
  then show ?case by simp
next
  case (Cons c w)
  then have "c \<noteq> 0x22" "c \<noteq> 0x5C" "lexString w = None"
    using whitespace_not_char [of c] by auto
  then show ?case by simp
qed

lemma hex4_Some:
  "hex4 xs = Some u \<Longrightarrow> length xs = 4 \<and> (\<forall>c\<in>set xs. hexValue c \<noteq> None)"
  by (cases xs rule: hex4.cases) (auto split: option.splits)

lemma hex4_append:
  assumes "hex4 (take 4 (es @ w)) = Some u" "\<forall>c\<in>set w. isWhiteSpace c"
  shows "4 \<le> length es"
proof (rule ccontr)
  assume "\<not> 4 \<le> length es"
  then have short: "length es < 4" by simp
  have len: "length (take 4 (es @ w)) = 4" and hex: "\<forall>c\<in>set (take 4 (es @ w)). hexValue c \<noteq> None"
    using hex4_Some [OF assms(1)] by auto
  have "take 4 (es @ w) = es @ take (4 - length es) w"
    using short by simp
  moreover have "take (4 - length es) w \<noteq> []"
    using len short by auto
  ultimately obtain c where "c \<in> set (take (4 - length es) w)" "c \<in> set (take 4 (es @ w))"
    by (metis Un_iff hd_in_set set_append)
  then show False
    using hex assms(2) whitespace_not_hex by (meson in_set_takeD)
qed

lemma lexString_append:
  assumes "\<forall>c\<in>set w. isWhiteSpace c"
  shows "lexString (s @ w) = Some (str, rest') \<Longrightarrow>
         \<exists>rest. lexString s = Some (str, rest) \<and> rest' = rest @ w"
proof (induction s arbitrary: str rule: length_induct)
  case (1 s)
  have IH: "\<exists>rest. lexString t = Some (str0, rest) \<and> rest' = rest @ w"
    if "length t < length s" "lexString (t @ w) = Some (str0, rest')" for t str0
    using 1(1) that by blast
  show ?case
  proof (cases s)
    case Nil
    then show ?thesis
      using 1(2) lexString_whitespace [OF assms] by simp
  next
    case (Cons c cs)
    show ?thesis
    proof (cases "c = 0x22")
      case True
      then show ?thesis using 1(2) Cons by simp
    next
      case notq: False
      show ?thesis
      proof (cases "c = 0x5C")
        case bs: True
        show ?thesis
        proof (cases cs)
          case Nil
          have "lexString (0x5C # w) = None"
          proof (cases w)
            case Nil
            then show ?thesis by simp
          next
            case (Cons e es)
            then have "e \<noteq> 0x75" "escapeCharacter e = None"
              using assms whitespace_not_char [of e] whitespace_not_escape [of e] by auto
            then show ?thesis by (simp add: Cons)
          qed
          then show ?thesis
            using 1(2) \<open>s = c # cs\<close> Nil bs by simp
        next
          case (Cons e es)
          show ?thesis
          proof (cases "e = 0x75")
            case u: True
            from 1(2) obtain x str0 where
              x: "hex4 (take 4 (es @ w)) = Some x"
              and r: "lexString (drop 4 (es @ w)) = Some (str0, rest')" and str: "str = x # str0"
              using \<open>s = c # cs\<close> Cons bs u by (auto split: option.splits)
            have len: "4 \<le> length es"
              using hex4_append [OF x assms] .
            then have "lexString (drop 4 es @ w) = Some (str0, rest')" "hex4 (take 4 es) = Some x"
              using r x by simp_all
            moreover have "length (drop 4 es) < length s"
              using \<open>s = c # cs\<close> Cons by simp
            ultimately show ?thesis
              using IH [of "drop 4 es" str0] \<open>s = c # cs\<close> Cons bs u str by auto
          next
            case nu: False
            from 1(2) obtain x str0 where
              x: "escapeCharacter e = Some x"
              and r: "lexString (es @ w) = Some (str0, rest')" and str: "str = x # str0"
              using \<open>s = c # cs\<close> Cons bs nu by (auto split: option.splits)
            moreover have "length es < length s"
              using \<open>s = c # cs\<close> Cons by simp
            ultimately show ?thesis
              using IH [of es str0] \<open>s = c # cs\<close> Cons bs nu by auto
          qed
        qed
      next
        case nbs: False
        from 1(2) obtain str0 where
          c: "\<not> c < 0x20" and r: "lexString (cs @ w) = Some (str0, rest')" and str: "str = c # str0"
          using Cons notq nbs by (auto split: if_splits)
        then show ?thesis
          using IH [of cs str0] Cons notq nbs by auto
      qed
    qed
  qed
qed

lemma digits_append:
  assumes "\<forall>c\<in>set w. isWhiteSpace c"
  shows "takeWhile isDigit (xs @ w) = takeWhile isDigit xs"
    and "dropWhile isDigit (xs @ w) = dropWhile isDigit xs @ w"
  using assms whitespace_not_digit
  by (simp_all add: takeWhile_append_none dropWhile_append_none)

lemma digits_whitespace:
  assumes "\<forall>c\<in>set w. isWhiteSpace c"
  shows "takeWhile isDigit w = [] \<and> takeWhile isDigit (tl w) = []"
proof -
  have "w \<noteq> [] \<Longrightarrow> \<not> isDigit (hd w)"
    using assms whitespace_not_digit hd_in_set by blast
  moreover have "tl w \<noteq> [] \<Longrightarrow> \<not> isDigit (hd (tl w))"
    by (metis assms whitespace_not_digit hd_in_set list.set_sel(2) tl_Nil)
  ultimately show ?thesis
    by (auto simp add: takeWhile_eq_Nil_iff)
qed

lemma lexInteger_append:
  assumes "\<forall>c\<in>set w. isWhiteSpace c" "lexInteger (s @ w) = Some (ds, rest')"
  shows "\<exists>rest. lexInteger s = Some (ds, rest) \<and> rest' = rest @ w"
proof (cases s)
  case Nil
  have "lexInteger w = None"
    using assms(1) whitespace_not_char whitespace_not_digit
    by (cases w) (auto simp add: lexInteger_def)
  then show ?thesis using assms(2) Nil by simp
next
  case (Cons c cs)
  have "takeWhile isDigit (c # cs @ w) = takeWhile isDigit (c # cs)"
       "dropWhile isDigit (c # cs @ w) = dropWhile isDigit (c # cs) @ w"
    using digits_append [OF assms(1), of "c # cs"] by simp_all
  then show ?thesis
    using assms(2) Cons by (auto simp add: lexInteger_def split: if_splits)
qed

lemma lexFraction_append:
  assumes "\<forall>c\<in>set w. isWhiteSpace c" "lexFraction (s @ w) = Some (ds, rest')"
  shows "\<exists>rest. lexFraction s = Some (ds, rest) \<and> rest' = rest @ w"
proof (cases s)
  case Nil
  have "lexFraction w = Some ([], w)"
    using assms(1) whitespace_not_char
    by (cases w) (auto simp add: lexFraction_def)
  then show ?thesis using assms(2) Nil by (simp add: lexFraction_def)
next
  case (Cons c cs)
  then show ?thesis
    using assms(2) digits_append [OF assms(1), of cs]
    by (auto simp add: lexFraction_def split: if_splits)
qed

lemma lexExponent_append:
  assumes "\<forall>c\<in>set w. isWhiteSpace c" "lexExponent (s @ w) = Some (e, rest')"
  shows "\<exists>rest. lexExponent s = Some (e, rest) \<and> rest' = rest @ w"
proof (cases s)
  case Nil
  have "lexExponent w = Some (0, w)"
    using assms(1) whitespace_not_char
    by (cases w) (auto simp add: lexExponent_def)
  then show ?thesis using assms(2) Nil by (simp add: lexExponent_def)
next
  case s: (Cons c cs)
  show ?thesis
  proof (cases "c = 0x65 \<or> c = 0x45")
    case False
    then show ?thesis using assms(2) s by (auto simp add: lexExponent_def)
  next
    case True
    show ?thesis
    proof (cases cs)
      case Nil
      have "takeWhile isDigit w = []" "takeWhile isDigit (tl w) = []"
        using digits_whitespace [OF assms(1)] by simp_all
      then have "lexExponent (c # w) = None"
        using True by (simp add: lexExponent_def Let_def)
      then show ?thesis using assms(2) s Nil by simp
    next
      case (Cons d ds)
      define signed where "signed = (d = 0x2D \<or> d = 0x2B)"
      define t where "t = (if signed then ds else d # ds)"
      have unfold: "lexExponent (c # d # u) =
          (if takeWhile isDigit (if signed then u else d # u) = [] then None
           else Some ((if d = 0x2D then - 1 else 1) *
                        int (digitsValue (takeWhile isDigit (if signed then u else d # u))),
                      dropWhile isDigit (if signed then u else d # u)))" for u
        using True by (simp add: lexExponent_def Let_def signed_def)
      have t: "(if signed then ds @ w else d # (ds @ w)) = t @ w" "(if signed then ds else d # ds) = t"
        by (simp_all add: t_def)
      have "lexExponent (c # d # (ds @ w)) = Some (e, rest')"
        using assms(2) s Cons by simp
      then show ?thesis
        unfolding s Cons unfold [of ds] unfold [of "ds @ w"] t digits_append [OF assms(1)]
        by (auto split: if_splits)
    qed
  qed
qed

lemma lexNumber_append:
  assumes "\<forall>c\<in>set w. isWhiteSpace c" "lexNumber (s @ w) = Some (q, rest')" "s \<noteq> []"
  shows "\<exists>rest. lexNumber s = Some (q, rest) \<and> rest' = rest @ w"
proof -
  obtain c cs where s: "s = c # cs"
    using assms(3) by (cases s) auto
  define negative where "negative = (c = 0x2D)"
  define s0 where "s0 = (if negative then cs else s)"
  have neg: "(case c # t of [] \<Rightarrow> False | c # cs \<Rightarrow> c = 0x2D) = negative" for t
    by (simp add: negative_def)
  have split: "lexNumber (c # t) =
      (case lexInteger (if negative then t else c # t) of
         None \<Rightarrow> None
       | Some (whole, s1) \<Rightarrow>
           (case lexFraction s1 of
              None \<Rightarrow> None
            | Some (fraction, s2) \<Rightarrow>
                (case lexExponent s2 of
                   None \<Rightarrow> None
                 | Some (e, s3) \<Rightarrow> Some (numberValue negative whole fraction e, s3))))" for t
    unfolding lexNumber_def Let_def neg by simp
  have s0w: "(if negative then cs @ w else c # (cs @ w)) = s0 @ w"
    by (simp add: s0_def s)
  from assms(2) obtain whole s1' fraction s2' e where
    i: "lexInteger (s0 @ w) = Some (whole, s1')" and
    f: "lexFraction s1' = Some (fraction, s2')" and
    x: "lexExponent s2' = Some (e, rest')" and
    q: "q = numberValue negative whole fraction e"
    unfolding s append_Cons split [of "cs @ w"] s0w
    by (auto split: option.splits)
  from lexInteger_append [OF assms(1) i] obtain s1 where
    i': "lexInteger s0 = Some (whole, s1)" and s1: "s1' = s1 @ w" by blast
  from lexFraction_append [OF assms(1) f [unfolded s1]] obtain s2 where
    f': "lexFraction s1 = Some (fraction, s2)" and s2: "s2' = s2 @ w" by blast
  from lexExponent_append [OF assms(1) x [unfolded s2]] obtain rest where
    x': "lexExponent s2 = Some (e, rest)" and rest: "rest' = rest @ w" by blast
  have "lexInteger (if negative then cs else c # cs) = Some (whole, s1)"
    using i' by (cases negative) (simp_all add: s0_def s)
  then have "lexNumber s = Some (q, rest)"
    unfolding s split [of cs] using f' x' q by simp
  then show ?thesis using rest by blast
qed

lemma keyword_not_whitespace:
  "c \<in> set (js ''true'') \<union> set (js ''false'') \<union> set (js ''null'') \<Longrightarrow> \<not> isWhiteSpace c"
  by (auto simp add: js_def dest!: whitespace_range)

lemma lexToken_append:
  assumes "\<forall>c\<in>set w. isWhiteSpace c" "lexToken (s @ w) = Some (t, rest')" "s \<noteq> []"
  shows "\<exists>rest. lexToken s = Some (t, rest) \<and> rest' = rest @ w"
proof -
  obtain c cs where s: "s = c # cs"
    using assms(3) by (cases s) auto
  have kw: "\<forall>c\<in>set (js ''true''). \<not> isWhiteSpace c" "\<forall>c\<in>set (js ''false''). \<not> isWhiteSpace c"
    "\<forall>c\<in>set (js ''null''). \<not> isWhiteSpace c"
    using keyword_not_whitespace by blast+
  have len: "length (js ''true'') = 4" "length (js ''false'') = 5" "length (js ''null'') = 4"
    by (simp_all add: js_def)
  have literal_true: "startsWith s (js ''true'') \<and> 4 \<le> length s" if "startsWith (s @ w) (js ''true'')"
    using startsWith_append [OF that assms(1) kw(1)] len by simp
  have literal_false: "startsWith s (js ''false'') \<and> 5 \<le> length s" if "startsWith (s @ w) (js ''false'')"
    using startsWith_append [OF that assms(1) kw(2)] len by simp
  have literal_null: "startsWith s (js ''null'') \<and> 4 \<le> length s" if "startsWith (s @ w) (js ''null'')"
    using startsWith_append [OF that assms(1) kw(3)] len by simp
  have mono: "startsWith s p \<Longrightarrow> startsWith (s @ w) p" for p
    unfolding startsWith_def by (metis append_eq_conv_conj append.assoc append_take_drop_id)
  have tok_punct: "lexToken (0x7B # u) = Some (TLBrace, u)" "lexToken (0x7D # u) = Some (TRBrace, u)"
    "lexToken (0x5B # u) = Some (TLBracket, u)" "lexToken (0x5D # u) = Some (TRBracket, u)"
    "lexToken (0x3A # u) = Some (TColon, u)" "lexToken (0x2C # u) = Some (TComma, u)" for u
    by (simp_all add: lexToken_def)
  have string: "lexToken (0x22 # u) = map_option (\<lambda>(str, rest). (TString str, rest)) (lexString u)"
    for u by (simp add: lexToken_def)
  have number: "lexToken (c # u) = map_option (\<lambda>(q, rest). (TNumber q, rest)) (lexNumber (c # u))"
    if "c \<notin> {0x7B, 0x7D, 0x5B, 0x5D, 0x3A, 0x2C}" "c \<noteq> 0x22" "c = 0x2D \<or> isDigit c" for u
    using that by (simp add: lexToken_def)
  consider (punct) "c \<in> {0x7B, 0x7D, 0x5B, 0x5D, 0x3A, 0x2C}"
    | (str) "c \<notin> {0x7B, 0x7D, 0x5B, 0x5D, 0x3A, 0x2C}" "c = 0x22"
    | (num) "c \<notin> {0x7B, 0x7D, 0x5B, 0x5D, 0x3A, 0x2C}" "c \<noteq> 0x22" "c = 0x2D \<or> isDigit c"
    | (lit) "c \<notin> {0x7B, 0x7D, 0x5B, 0x5D, 0x3A, 0x2C}" "c \<noteq> 0x22" "\<not> (c = 0x2D \<or> isDigit c)"
    by blast
  then show ?thesis
  proof cases
    case punct
    then consider "c = 0x7B" | "c = 0x7D" | "c = 0x5B" | "c = 0x5D" | "c = 0x3A" | "c = 0x2C"
      by blast
    then show ?thesis
      using assms(2) unfolding s append_Cons by cases (auto simp add: tok_punct)
  next
    case str
    then obtain x where "lexString (cs @ w) = Some (x, rest')" "t = TString x"
      using assms(2) unfolding s append_Cons by (auto simp only: string)
    from lexString_append [OF assms(1) this(1)] obtain rest where
      "lexString cs = Some (x, rest)" "rest' = rest @ w"
      by blast
    then show ?thesis
      unfolding s using str(2) \<open>t = TString x\<close> by (simp add: string)
  next
    case num
    then obtain q where "lexNumber (s @ w) = Some (q, rest')" "t = TNumber q"
      using assms(2) number [OF num, of "cs @ w"] unfolding s append_Cons by auto
    then show ?thesis
      using lexNumber_append [OF assms(1) _ assms(3), of q rest'] number [OF num, of cs]
      unfolding s by auto
  next
    case lit
    then have eq: "lexToken (c # u) =
        (if startsWith (c # u) (js ''true'') then Some (TTrue, drop 4 (c # u))
         else if startsWith (c # u) (js ''false'') then Some (TFalse, drop 5 (c # u))
         else if startsWith (c # u) (js ''null'') then Some (TNull, drop 4 (c # u))
         else None)" for u
      by (simp add: lexToken_def)
    have first: "startsWith (c # u) (js p) \<Longrightarrow> p \<noteq> [] \<Longrightarrow> c = of_nat (of_char (hd p))" for u p
      by (cases p) (auto simp add: startsWith_def js_def)
    have eqs: "lexToken s =
        (if startsWith s (js ''true'') then Some (TTrue, drop 4 s)
         else if startsWith s (js ''false'') then Some (TFalse, drop 5 s)
         else if startsWith s (js ''null'') then Some (TNull, drop 4 s)
         else None)"
      "lexToken (s @ w) =
        (if startsWith (s @ w) (js ''true'') then Some (TTrue, drop 4 (s @ w))
         else if startsWith (s @ w) (js ''false'') then Some (TFalse, drop 5 (s @ w))
         else if startsWith (s @ w) (js ''null'') then Some (TNull, drop 4 (s @ w))
         else None)"
      using eq [of cs] eq [of "cs @ w"] by (simp_all add: s)
    show ?thesis
    proof (cases "startsWith (s @ w) (js ''true'')")
      case True
      then show ?thesis
        using literal_true assms(2) unfolding eqs by auto
    next
      case nt: False
      then have nt': "\<not> startsWith s (js ''true'')"
        using mono by blast
      show ?thesis
      proof (cases "startsWith (s @ w) (js ''false'')")
        case True
        then show ?thesis
          using literal_false nt nt' assms(2) unfolding eqs by auto
      next
        case nf: False
        then have nf': "\<not> startsWith s (js ''false'')"
          using mono by blast
        have "startsWith (s @ w) (js ''null'')"
          using nt nf assms(2) unfolding eqs by (auto split: if_splits)
        then show ?thesis
          using literal_null nt nt' nf nf' assms(2) unfolding eqs by auto
      qed
    qed
  qed
qed

lemma tokenize_append:
  assumes "\<forall>c\<in>set w. isWhiteSpace c"
  shows "tokenize (s @ w) = Some ts \<Longrightarrow> tokenize s = Some ts"
proof (induction s arbitrary: ts rule: length_induct)
  case (1 s)
  show ?case
  proof (cases "dropWhile isJSONWhiteSpace s")
    case Nil
    then have all: "\<forall>c\<in>set s. isJSONWhiteSpace c"
      by simp
    then have "dropWhile isJSONWhiteSpace (s @ w) = dropWhile isJSONWhiteSpace w"
      by (simp add: dropWhile_append)
    then have "tokenize (s @ w) = tokenize w"
      by (simp add: tokenize.simps [of "s @ w"] tokenize.simps [of w])
    then have "ts = []"
      using 1(2) tokenize_whitespace_only [OF assms] by simp
    then show ?thesis
      unfolding tokenize.simps [of s] Nil by simp
  next
    case (Cons c cs)
    then have notws: "\<not> isJSONWhiteSpace c"
      by (metis dropWhile_eq_Cons_conv)
    obtain x where "x \<in> set s" "\<not> isJSONWhiteSpace x"
      using Cons by (metis dropWhile_eq_Nil_conv list.distinct(1))
    then have "dropWhile isJSONWhiteSpace (s @ w) = dropWhile isJSONWhiteSpace s @ w"
      by (rule dropWhile_append1)
    then have d: "dropWhile isJSONWhiteSpace (s @ w) = (c # cs) @ w"
      by (simp only: Cons)
    from 1(2) obtain t rest' ts' where
      t: "lexToken ((c # cs) @ w) = Some (t, rest')" and
      r: "tokenize rest' = Some ts'" and ts: "ts = t # ts'"
      unfolding tokenize.simps [of "s @ w"] d by (auto split: option.splits)
    from lexToken_append [OF assms t] obtain rest where
      t': "lexToken (c # cs) = Some (t, rest)" and rest: "rest' = rest @ w"
      by blast
    have "length rest < length (c # cs)"
      using lexToken_length [OF t'] .
    moreover have "length (c # cs) \<le> length s"
      using length_dropWhile_le [of isJSONWhiteSpace s] Cons by simp
    ultimately have "tokenize rest = Some ts'"
      using 1(1) r rest by auto
    then show ?thesis
      unfolding tokenize.simps [of s] Cons using t' ts by simp
  qed
qed

lemma tokenize_trim:
  assumes "tokenize s = Some ts"
  shows "tokenize (trim s) = Some ts"
proof -
  define u where "u = dropWhile isWhiteSpace s"
  have u: "tokenize u = Some ts"
    using assms by (simp add: u_def tokenize_trim_start)
  have "rev (rev u) = rev (takeWhile isWhiteSpace (rev u) @ dropWhile isWhiteSpace (rev u))"
    by simp
  then have "u = rev (dropWhile isWhiteSpace (rev u)) @ rev (takeWhile isWhiteSpace (rev u))"
    by (simp only: rev_append rev_rev_ident)
  then have "u = trim s @ rev (takeWhile isWhiteSpace (rev u))"
    by (simp only: trim_def u_def)
  moreover have "\<forall>c\<in>set (rev (takeWhile isWhiteSpace (rev u))). isWhiteSpace c"
    by (auto dest: set_takeWhileD)
  ultimately show ?thesis
    using u tokenize_append by metis
qed

lemma JSON_parse_trim:
  "JSON_parse s = Some v \<Longrightarrow> JSON_parse (trim s) = Some v"
  by (auto simp add: JSON_parse_def tokenize_trim split: option.splits)

section \<open>The analysis route: properties\<close>

lemma analyzeImage_sentinel:
  assumes "parseContent c = Some a"
    and "readProperty a (js ''isError'') = Inr flag" and "readProperty a (js ''error'') = Inr err"
    and "truthy flag \<or> truthy err"
  shows "\<exists>e d sent. analyzeImage (CapContent c) imageBase64 mimeType = (AnalysisFailed e d, sent)"
  using assms by (simp add: analyzeImage_def analyzeImage_caught_def)

text \<open>
  C3.  When the text the capability returns for the extraction stage decodes to a value
  whose \<open>isError\<close> or \<open>error\<close> field is truthy, the analysis route answers with a
  failure and leaves the session map as it was, whatever was uploaded and whatever the
  later stages would have returned; on an upload that passes the stage's own checks the
  stage result is the failure carrying the \<open>error\<close> field (or the fixed message) and
  the only request sent is the extraction request.
\<close>

theorem extraction_sentinel_is_terminal:
  assumes "parseContent c = Some a"
    and "readProperty a (js ''isError'') = Inr flag" and "readProperty a (js ''error'') = Inr err"
    and "truthy flag \<or> truthy err"
  shows "isFailure (fst (analyze_route development (CapContent c) reply2 reply3 newId
                           t_created t_accessed uploaded m)) \<and>
         fst (snd (analyze_route development (CapContent c) reply2 reply3 newId
                           t_created t_accessed uploaded m)) = m \<and>
         (imageBase64 \<noteq> [] \<and> startsWith mimeType (js ''image/'') \<longrightarrow>
            analyzeImage (CapContent c) imageBase64 mimeType =
              (AnalysisFailed (orElse err (JString (js ''Failed to analyze the food label'')))
                 (Details (js ''The model could not process the image as a food label'')),
               [ExtractRequest mimeType imageBase64]))"
proof -
  have handler: "isFailure (fst (analyze_handler (CapContent c) reply2 reply3 newId
                           t_created t_accessed f m)) \<and>
         fst (snd (analyze_handler (CapContent c) reply2 reply3 newId
                           t_created t_accessed f m)) = m" for f
    using analyzeImage_sentinel [OF assms, of "base64 (buffer f)" "mimetype f"]
    by (auto simp add: analyze_handler_def)
  have "startsWith mimeType (js ''image/'') \<Longrightarrow> mimeType \<noteq> []"
    by (auto simp add: startsWith_def js_def)
  then have stage: "imageBase64 \<noteq> [] \<and> startsWith mimeType (js ''image/'') \<longrightarrow>
            analyzeImage (CapContent c) imageBase64 mimeType =
              (AnalysisFailed (orElse err (JString (js ''Failed to analyze the food label'')))
                 (Details (js ''The model could not process the image as a food label'')),
               [ExtractRequest mimeType imageBase64])"
    using assms by (auto simp add: analyzeImage_def)
  show ?thesis
    using handler stage
    by (cases uploaded) (simp_all add: analyze_route_def fileFilter_def errorHandler_def)
qed

theorem extraction_sentinel_is_terminal_witness:
  "isFailure (fst (analyze_route False (CapContent (js ''{\"isError\":true,\"error\":\"Not a label\"}''))
       (CapError (Error (js ''unavailable''))) (CapError (Error (js ''unavailable''))) (js ''id'') 0 0
       (Some \<lparr>mimetype = js ''image/png'', buffer = [0x41]\<rparr>) Map.empty)) \<and>
   fst (snd (analyze_route False (CapContent (js ''{\"isError\":true,\"error\":\"Not a label\"}''))
       (CapError (Error (js ''unavailable''))) (CapError (Error (js ''unavailable''))) (js ''id'') 0 0
       (Some \<lparr>mimetype = js ''image/png'', buffer = [0x41]\<rparr>) Map.empty)) = Map.empty \<and>
   analyzeImage (CapContent (js ''{\"isError\":true,\"error\":\"Not a label\"}'')) (js ''QQ=='')
       (js ''image/png'') =
     (AnalysisFailed (JString (js ''Not a label''))
        (Details (js ''The model could not process the image as a food label'')),
      [ExtractRequest (js ''image/png'') (js ''QQ=='')])"
proof -
  have p: "parseContent (js ''{\"isError\":true,\"error\":\"Not a label\"}'') =
     Some (JObject [(js ''isError'', JBool True), (js ''error'', JString (js ''Not a label''))])"
    by code_simp
  have f: "readProperty (JObject [(js ''isError'', JBool True), (js ''error'', JString (js ''Not a label''))])
      (js ''isError'') = Inr (JV (JBool True))"
    by (simp add: js_def)
  have e: "readProperty (JObject [(js ''isError'', JBool True), (js ''error'', JString (js ''Not a label''))])
      (js ''error'') = Inr (JV (JString (js ''Not a label'')))"
    by (simp add: js_def)
  have t: "truthy (JV (JBool True)) \<or> truthy (JV (JString (js ''Not a label'')))"
    by simp
  have i: "js ''QQ=='' \<noteq> [] \<and> startsWith (js ''image/png'') (js ''image/'')"
    by (simp add: startsWith_def js_def)
  show ?thesis
    using extraction_sentinel_is_terminal [OF p f e t, of False "CapError (Error (js ''unavailable''))"
        "CapError (Error (js ''unavailable''))" "js ''id''" 0 0
        "Some \<lparr>mimetype = js ''image/png'', buffer = [0x41]\<rparr>" Map.empty "js ''QQ==''"
        "js ''image/png''"] i
    by (simp add: orElse_def js_def)
qed

text \<open>
  The analysis route stores a session only at its end, when the three artifacts exist,
  and under the identifier it was given, whatever the map held there.
\<close>

lemma analyze_handler_stores_complete_session:
  assumes "analyze_handler reply1 reply2 reply3 newId t_created t_accessed f m =
             (AnalyzeSuccess i formatted q, m', sent)"
  shows "\<exists>a w. m' = m(newId \<mapsto> \<lparr>analysis = a, webInfo = w, formattedData = formatted,
                                  conversationHistory = [], createdAt = t_created,
                                  lastAccessed = t_accessed\<rparr>) \<and> i = newId"
  using assms
  by (auto simp add: analyze_handler_def analyze_caught_def storeAnalysis_def Let_def
      split: prod.splits analysis_result.splits sum.splits)

lemma base64_empty: "base64 bytes = [] \<longleftrightarrow> bytes = []"
  by (cases bytes rule: base64.cases) (simp_all add: Let_def)

lemma supported_types_are_images: "t \<in> set SUPPORTED_IMAGE_TYPES \<Longrightarrow> startsWith t (js ''image/'')"
  by (auto simp add: SUPPORTED_IMAGE_TYPES_def startsWith_def js_def)

lemma analyzeImage_sent:
  "snd (analyzeImage reply imageBase64 mimeType) =
     (if imageBase64 \<noteq> [] \<and> startsWith mimeType (js ''image/'')
      then [ExtractRequest mimeType imageBase64] else [])"
proof -
  have "startsWith mimeType (js ''image/'') \<Longrightarrow> mimeType \<noteq> []"
    by (auto simp add: startsWith_def js_def)
  then show ?thesis
    by (auto simp add: analyzeImage_def split: cap_reply.splits option.splits sum.splits)
qed

lemma analyzeImage_ok_sent:
  "analyzeImage reply imageBase64 mimeType = (AnalysisOk a, sent) \<Longrightarrow>
   sent = [ExtractRequest mimeType imageBase64]"
  by (auto simp add: analyzeImage_def analyzeImage_caught_def
      split: if_splits cap_reply.splits option.splits sum.splits)

lemma analyze_handler_sent:
  "snd (snd (analyze_handler reply1 reply2 reply3 newId t_created t_accessed f m)) \<noteq> [] \<Longrightarrow>
   snd (analyzeImage reply1 (base64 (buffer f)) (mimetype f)) \<noteq> []"
  by (auto simp add: analyze_handler_def Let_def dest: analyzeImage_ok_sent
      split: prod.splits analysis_result.splits sum.splits)

text \<open>
  C6, as the source has it.  \<open>analyzeImage\<close> sends its request exactly when the
  base64 payload is not empty and the media type starts with \<open>image/\<close>; it has no
  list of allowed types.  The list is checked by the upload filter of the route: on the
  route a request reaches the capability only for an uploaded file whose type is in the
  list and whose bytes are not empty.
\<close>

theorem extract_validation:
  "snd (analyzeImage reply imageBase64 mimeType) =
     (if imageBase64 \<noteq> [] \<and> startsWith mimeType (js ''image/'')
      then [ExtractRequest mimeType imageBase64] else []) \<and>
   (snd (snd (analyze_route development reply1 reply2 reply3 newId t_created t_accessed uploaded m))
      \<noteq> [] \<longrightarrow>
    (\<exists>f. uploaded = Some f \<and> mimetype f \<in> set SUPPORTED_IMAGE_TYPES \<and> buffer f \<noteq> []))"
proof -
  have "\<exists>f. uploaded = Some f \<and> mimetype f \<in> set SUPPORTED_IMAGE_TYPES \<and> buffer f \<noteq> []"
    if sent: "snd (snd (analyze_route development reply1 reply2 reply3 newId t_created
                       t_accessed uploaded m)) \<noteq> []"
  proof (cases uploaded)
    case None
    then show ?thesis using sent by (simp add: analyze_route_def)
  next
    case (Some f)
    then have ok: "mimetype f \<in> set SUPPORTED_IMAGE_TYPES" and
      h: "snd (snd (analyze_handler reply1 reply2 reply3 newId t_created t_accessed f m)) \<noteq> []"
      using sent by (auto simp add: analyze_route_def fileFilter_def split: if_splits)
    have "base64 (buffer f) \<noteq> []"
      using analyze_handler_sent [OF h] by (simp add: analyzeImage_sent split: if_splits)
    then show ?thesis
      using Some ok by (simp add: base64_empty)
  qed
  then show ?thesis
    using analyzeImage_sent by blast
qed

theorem extract_validation_counterexample:
  "js ''image/bmp'' \<notin> set SUPPORTED_IMAGE_TYPES \<and>
   snd (analyzeImage (CapContent (js ''{}'')) (js ''QQ=='') (js ''image/bmp'')) =
     [ExtractRequest (js ''image/bmp'') (js ''QQ=='')]"
  by (simp add: analyzeImage_sent SUPPORTED_IMAGE_TYPES_def startsWith_def js_def)

theorem extract_validation_witness:
  "snd (snd (analyze_route False (CapError (Error (js ''unavailable'')))
              (CapError (Error (js ''unavailable''))) (CapError (Error (js ''unavailable'')))
              (js ''id'') 0 0
              (Some \<lparr>mimetype = js ''image/png'', buffer = [0x41]\<rparr>) Map.empty)) =
     [ExtractRequest (js ''image/png'') (js ''QQ=='')] \<and>
   js ''image/png'' \<in> set SUPPORTED_IMAGE_TYPES \<and>
   snd (snd (analyze_route False (CapError (Error (js ''unavailable'')))
              (CapError (Error (js ''unavailable''))) (CapError (Error (js ''unavailable'')))
              (js ''id'') 0 0
              (Some \<lparr>mimetype = js ''text/plain'', buffer = [0x41]\<rparr>) Map.empty)) = []"
  using extract_validation [of "CapError (Error (js ''unavailable''))" "js ''QQ==''" "js ''image/png''"
      False "CapError (Error (js ''unavailable''))" "CapError (Error (js ''unavailable''))"
      "CapError (Error (js ''unavailable''))" "js ''id''" 0 0
      "Some \<lparr>mimetype = js ''image/png'', buffer = [0x41]\<rparr>" Map.empty]
  by (simp add: analyze_route_def fileFilter_def analyze_handler_def analyzeImage_def
      analyzeImage_caught_def SUPPORTED_IMAGE_TYPES_def fileSize_limit_def startsWith_def js_def
      base64_alphabet_def errorHandler_def Let_def)

section \<open>Code fences: properties\<close>

lemma JSON_text_not_fenced:
  assumes "JSON_parse t = Some v"
  shows "\<not> startsWith t (js ''```'')"
proof
  assume "startsWith t (js ''```'')"
  then obtain cs where t: "t = 0x60 # cs"
    by (cases t) (auto simp add: startsWith_def js_def)
  have "lexToken (0x60 # cs) = None"
    by (simp add: lexToken_def isDigit_def startsWith_def js_def)
  then have "tokenize t = None"
    by (simp add: tokenize.simps [of "0x60 # cs"] t isJSONWhiteSpace_def)
  then show False
    using assms by (simp add: JSON_parse_def)
qed

lemma startsWith_prefix: "startsWith c (p @ q) \<Longrightarrow> startsWith c p"
proof -
  assume "startsWith c (p @ q)"
  then have h: "take (length (p @ q)) c = p @ q"
    by (simp only: startsWith_def)
  have "take (length p) (take (length (p @ q)) c) = take (length p) c"
    by (simp add: min_def)
  with h show ?thesis
    by (simp add: startsWith_def)
qed

lemma removeCodeBlockMarkers_unfenced:
  "\<not> startsWith c (js ''```'') \<Longrightarrow> removeCodeBlockMarkers c = c"
proof -
  assume n: "\<not> startsWith c (js ''```'')"
  have "js ''```json'' = js ''```'' @ js ''json''"
    by (simp add: js_def)
  then have "\<not> startsWith c (js ''```json'')"
    using n startsWith_prefix [of c "js ''```''" "js ''json''"] by auto
  then show ?thesis
    using n by (simp add: removeCodeBlockMarkers_def)
qed

lemma removeCodeBlockMarkers_json_fence:
  "removeCodeBlockMarkers (js ''```json\<newline>'' @ t @ js ''\<newline>```'') = trim t"
  by (simp add: removeCodeBlockMarkers_def replaceMarkers_def startsWith_def endsWith_def js_def)

lemma removeCodeBlockMarkers_plain_fence:
  "removeCodeBlockMarkers (js ''```\<newline>'' @ t @ js ''\<newline>```'') = trim t"
  by (simp add: removeCodeBlockMarkers_def replaceMarkers_def startsWith_def endsWith_def js_def)

lemma fenced_text_does_not_parse:
  "startsWith t (js ''```'') \<Longrightarrow> JSON_parse t = None"
  using JSON_text_not_fenced [of t] by (cases "JSON_parse t") auto

lemma trim_keeps_prefix:
  assumes "startsWith s p" and "p \<noteq> []" and "\<forall>c\<in>set p. \<not> isWhiteSpace c"
  shows "startsWith (trim s) p"
proof -
  from assms(1) have "take (length p) s = p"
    by (simp add: startsWith_def)
  then obtain r where s: "s = p @ r"
    by (metis append_take_drop_id)
  have front: "dropWhile isWhiteSpace (p @ r) = p @ r"
    using assms(2,3) by (cases p) auto
  have "last p \<in> set p"
    using assms(2) by simp
  then have rear: "dropWhile isWhiteSpace (rev p) = rev p"
    using assms(2,3) by (cases "rev p") (auto simp add: last_rev [symmetric] hd_rev)
  have "\<exists>x. dropWhile isWhiteSpace (rev r @ rev p) = x @ rev p"
    using rear by (auto simp add: dropWhile_append)
  then obtain x where "dropWhile isWhiteSpace (rev (p @ r)) = x @ rev p"
    by auto
  then have "trim s = p @ rev x"
    by (simp add: trim_def s front)
  then show ?thesis
    by (simp add: startsWith_def)
qed

lemma closing_marker_after_opening:
  assumes "startsWith c (js ''```'')" and "endsWith c (js ''\<newline>```'')"
  shows "startsWith (take (length c - 4) c) (js ''```'')"
proof -
  have three: "take 3 c = [0x60, 0x60, 0x60]"
    using assms(1) by (simp add: startsWith_def js_def eval_nat_numeral)
  have len: "4 \<le> length c" and tail: "drop (length c - 4) c = [0x0A, 0x60, 0x60, 0x60]"
    using assms(2) by (simp_all add: endsWith_def js_def eval_nat_numeral)
  have nl: "c ! (length c - 4) = 0x0A"
    using tail len by (metis diff_less hd_drop_conv_nth list.sel(1) length_greater_0_conv
        list.size(3) not_numeral_le_zero zero_less_numeral)
  have "3 \<le> length c - 4"
  proof (rule ccontr)
    assume "\<not> 3 \<le> length c - 4"
    then have i: "length c - 4 < 3" by simp
    then have "take 3 c ! (length c - 4) = c ! (length c - 4)"
      by simp
    then show False
      using three nl i by (auto simp add: nth_Cons' split: if_splits)
  qed
  then have kept: "take 3 (take (length c - 4) c) = take 3 c"
    by (simp add: min_def)
  have l: "length (js ''```'') = 3"
    by (simp add: js_def)
  have e: "take 3 c = js ''```''"
    using assms(1) by (simp add: startsWith_def l)
  show ?thesis
    unfolding startsWith_def by (simp only: l kept e)
qed

lemma fence_not_whitespace: "\<forall>c\<in>set (js ''```''). \<not> isWhiteSpace c"
  using whitespace_not_char by (auto simp add: js_def)

lemma removeCodeBlockMarkers_other_opening:
  assumes fenced: "startsWith c (js ''```'')"
    and not_json: "\<not> startsWith c (js ''```json\<newline>'')"
    and not_plain: "\<not> startsWith c (js ''```\<newline>'')"
  shows "removeCodeBlockMarkers c =
           trim (if endsWith c (js ''\<newline>```'') then take (length c - 4) c else c)"
    and "startsWith (removeCodeBlockMarkers c) (js ''```'')"
    and "parseContent c = None"
proof -
  show eq: "removeCodeBlockMarkers c =
           trim (if endsWith c (js ''\<newline>```'') then take (length c - 4) c else c)"
    using assms by (simp add: removeCodeBlockMarkers_def replaceMarkers_def)
  have "startsWith (if endsWith c (js ''\<newline>```'') then take (length c - 4) c else c) (js ''```'')"
    using fenced closing_marker_after_opening by simp
  then show kept: "startsWith (removeCodeBlockMarkers c) (js ''```'')"
    unfolding eq using trim_keeps_prefix [OF _ _ fence_not_whitespace]
    by (simp add: js_def)
  then show "parseContent c = None"
    by (simp add: parseContent_def fenced_text_does_not_parse)
qed

lemma removeCodeBlockMarkers_json_opening:
  assumes "startsWith c (js ''```json\<newline>'')"
  shows "removeCodeBlockMarkers c =
           trim (if endsWith (drop 8 c) (js ''\<newline>```'')
                 then take (length (drop 8 c) - 4) (drop 8 c) else drop 8 c)"
proof -
  have len: "length (js ''```json\<newline>'') = 8"
    by (simp add: js_def)
  have "js ''```json\<newline>'' = js ''```json'' @ js ''\<newline>''"
    by (simp add: js_def)
  then have "startsWith c (js ''```json'')"
    using assms startsWith_prefix [of c "js ''```json''" "js ''\<newline>''"] by simp
  then show ?thesis
    using assms by (simp add: removeCodeBlockMarkers_def replaceMarkers_def Let_def len)
qed

lemma removeCodeBlockMarkers_plain_opening:
  assumes "startsWith c (js ''```\<newline>'')"
  shows "removeCodeBlockMarkers c =
           trim (if endsWith (drop 4 c) (js ''\<newline>```'')
                 then take (length (drop 4 c) - 4) (drop 4 c) else drop 4 c)"
proof -
  have len: "length (js ''```\<newline>'') = 4"
    by (simp add: js_def)
  have "js ''```\<newline>'' = js ''```'' @ js ''\<newline>''"
    by (simp add: js_def)
  then have fenced: "startsWith c (js ''```'')"
    using assms startsWith_prefix [of c "js ''```''" "js ''\<newline>''"] by simp
  have four: "take 4 c = js ''```\<newline>''"
    using assms by (simp add: startsWith_def len)
  have "js ''```json'' = js ''```j'' @ js ''son''"
    by (simp add: js_def)
  then have "startsWith c (js ''```j'')" if "startsWith c (js ''```json'')"
    using that startsWith_prefix [of c "js ''```j''" "js ''son''"] by simp
  moreover have "length (js ''```j'') = 4"
    by (simp add: js_def)
  ultimately have "take 4 c = js ''```j''" if "startsWith c (js ''```json'')"
    using that by (simp add: startsWith_def)
  moreover have "js ''```j'' \<noteq> js ''```\<newline>''"
    by (simp add: js_def)
  ultimately have "\<not> startsWith c (js ''```json'')"
    using four by auto
  then show ?thesis
    using assms fenced by (simp add: removeCodeBlockMarkers_def replaceMarkers_def Let_def len)
qed

text \<open>
  C7, as the source has it.  For every text \<open>t\<close> that \<open>JSON.parse\<close> accepts, the
  response made of the line \<open>```json\<close>, then \<open>t\<close>, then the line \<open>```\<close> is coerced
  to the value of \<open>t\<close>, and so is the same response with the untagged opening line
  \<open>```\<close>; \<open>t\<close> alone is coerced to its value too.  These markers are all the
  stripping recognises, for every content \<open>c\<close>: a content that does not start with
  \<open>```\<close> is left as it is; one that starts with \<open>```json\<close> and a newline loses these
  eight characters, one that starts with \<open>```\<close> and a newline these four, then a
  newline and \<open>```\<close> at the very end, and is trimmed; one that starts with \<open>```\<close> in
  any other way, so with any other tag on the opening line, loses at most the closing
  marker and is trimmed, still starts with \<open>```\<close>, and does not parse.
\<close>

theorem fenced_response_same_value:
  "(JSON_parse t = Some v \<longrightarrow>
      parseContent (js ''```json\<newline>'' @ t @ js ''\<newline>```'') = Some v \<and>
      parseContent (js ''```\<newline>'' @ t @ js ''\<newline>```'') = Some v \<and>
      parseContent t = Some v) \<and>
   (\<not> startsWith c (js ''```'') \<longrightarrow> removeCodeBlockMarkers c = c) \<and>
   (startsWith c (js ''```json\<newline>'') \<longrightarrow>
      removeCodeBlockMarkers c =
        trim (if endsWith (drop 8 c) (js ''\<newline>```'')
              then take (length (drop 8 c) - 4) (drop 8 c) else drop 8 c)) \<and>
   (startsWith c (js ''```\<newline>'') \<longrightarrow>
      removeCodeBlockMarkers c =
        trim (if endsWith (drop 4 c) (js ''\<newline>```'')
              then take (length (drop 4 c) - 4) (drop 4 c) else drop 4 c)) \<and>
   (startsWith c (js ''```'') \<and> \<not> startsWith c (js ''```json\<newline>'') \<and>
    \<not> startsWith c (js ''```\<newline>'') \<longrightarrow>
      removeCodeBlockMarkers c =
        trim (if endsWith c (js ''\<newline>```'') then take (length c - 4) c else c) \<and>
      startsWith (removeCodeBlockMarkers c) (js ''```'') \<and>
      parseContent c = None)"
proof -
  have "parseContent (js ''```json\<newline>'' @ t @ js ''\<newline>```'') = Some v \<and>
        parseContent (js ''```\<newline>'' @ t @ js ''\<newline>```'') = Some v \<and>
        parseContent t = Some v" if parses: "JSON_parse t = Some v"
    using parses JSON_parse_trim [OF parses] JSON_text_not_fenced [OF parses]
    by (simp add: parseContent_def removeCodeBlockMarkers_json_fence
        removeCodeBlockMarkers_plain_fence removeCodeBlockMarkers_unfenced)
  then show ?thesis
    using removeCodeBlockMarkers_unfenced [of c] removeCodeBlockMarkers_json_opening [of c]
      removeCodeBlockMarkers_plain_opening [of c] removeCodeBlockMarkers_other_opening [of c]
    by blast
qed

theorem fenced_response_same_value_witness:
  "parseContent (js ''```json\<newline>{\"answer\": \"yes\"}\<newline>```'') =
     Some (JObject [(js ''answer'', JString (js ''yes''))]) \<and>
   parseContent (js ''```\<newline>{\"answer\": \"yes\"}\<newline>```'') =
     Some (JObject [(js ''answer'', JString (js ''yes''))]) \<and>
   parseContent (js ''{\"answer\": \"yes\"}'') =
     Some (JObject [(js ''answer'', JString (js ''yes''))]) \<and>
   removeCodeBlockMarkers (js '' [1] '') = js '' [1] '' \<and>
   removeCodeBlockMarkers (js ''```json\<newline> [1]\<newline>```'') = js ''[1]'' \<and>
   removeCodeBlockMarkers (js ''```\<newline> [1]\<newline>```'') = js ''[1]'' \<and>
   removeCodeBlockMarkers (js ''```JSON\<newline> [1]\<newline>```'') = js ''```JSON\<newline> [1]'' \<and>
   startsWith (removeCodeBlockMarkers (js ''```JSON\<newline> [1]\<newline>```'')) (js ''```'') \<and>
   parseContent (js ''```JSON\<newline> [1]\<newline>```'') = None"
proof -
  let ?t = "js ''{\"answer\": \"yes\"}''"
  let ?v = "JObject [(js ''answer'', JString (js ''yes''))]"
  have p: "JSON_parse ?t = Some ?v"
    by code_simp
  have unfenced: "\<not> startsWith (js '' [1] '') (js ''```'')"
    by code_simp
  have tagged: "startsWith (js ''```json\<newline> [1]\<newline>```'') (js ''```json\<newline>'')"
    by code_simp
  have tagged_text:
    "trim (if endsWith (drop 8 (js ''```json\<newline> [1]\<newline>```'')) (js ''\<newline>```'')
           then take (length (drop 8 (js ''```json\<newline> [1]\<newline>```'')) - 4)
                  (drop 8 (js ''```json\<newline> [1]\<newline>```''))
           else drop 8 (js ''```json\<newline> [1]\<newline>```'')) = js ''[1]''"
    by code_simp
  have plain: "startsWith (js ''```\<newline> [1]\<newline>```'') (js ''```\<newline>'')"
    by code_simp
  have plain_text:
    "trim (if endsWith (drop 4 (js ''```\<newline> [1]\<newline>```'')) (js ''\<newline>```'')
           then take (length (drop 4 (js ''```\<newline> [1]\<newline>```'')) - 4)
                  (drop 4 (js ''```\<newline> [1]\<newline>```''))
           else drop 4 (js ''```\<newline> [1]\<newline>```'')) = js ''[1]''"
    by code_simp
  have other: "startsWith (js ''```JSON\<newline> [1]\<newline>```'') (js ''```'') \<and>
      \<not> startsWith (js ''```JSON\<newline> [1]\<newline>```'') (js ''```json\<newline>'') \<and>
      \<not> startsWith (js ''```JSON\<newline> [1]\<newline>```'') (js ''```\<newline>'')"
    by code_simp
  have other_text:
    "trim (if endsWith (js ''```JSON\<newline> [1]\<newline>```'') (js ''\<newline>```'')
           then take (length (js ''```JSON\<newline> [1]\<newline>```'') - 4)
                  (js ''```JSON\<newline> [1]\<newline>```'')
           else js ''```JSON\<newline> [1]\<newline>```'') = js ''```JSON\<newline> [1]''"
    by code_simp
  have "parseContent (js ''```json\<newline>'' @ ?t @ js ''\<newline>```'') = Some ?v \<and>
        parseContent (js ''```\<newline>'' @ ?t @ js ''\<newline>```'') = Some ?v \<and>
        parseContent ?t = Some ?v"
    using fenced_response_same_value [of ?t ?v "[]"] p by blast
  moreover have "removeCodeBlockMarkers (js '' [1] '') = js '' [1] ''"
    using fenced_response_same_value [of ?t ?v "js '' [1] ''"] unfenced by blast
  moreover have "removeCodeBlockMarkers (js ''```json\<newline> [1]\<newline>```'') = js ''[1]''"
    using fenced_response_same_value [of ?t ?v "js ''```json\<newline> [1]\<newline>```''"] tagged
    unfolding tagged_text by blast
  moreover have "removeCodeBlockMarkers (js ''```\<newline> [1]\<newline>```'') = js ''[1]''"
    using fenced_response_same_value [of ?t ?v "js ''```\<newline> [1]\<newline>```''"] plain
    unfolding plain_text by blast
  moreover have
    "removeCodeBlockMarkers (js ''```JSON\<newline> [1]\<newline>```'') = js ''```JSON\<newline> [1]'' \<and>
     startsWith (removeCodeBlockMarkers (js ''```JSON\<newline> [1]\<newline>```'')) (js ''```'') \<and>
     parseContent (js ''```JSON\<newline> [1]\<newline>```'') = None"
    using fenced_response_same_value [of ?t ?v "js ''```JSON\<newline> [1]\<newline>```''"] other
    unfolding other_text by blast
  ultimately show ?thesis
    by (simp add: js_def startsWith_def)
qed

theorem fence_with_other_tag_counterexample:
  "parseContent (js ''1'') = Some (JNumber 1) \<and>
   removeCodeBlockMarkers (js ''```js\<newline>1\<newline>```'') = js ''```js\<newline>1'' \<and>
   parseContent (js ''```js\<newline>1\<newline>```'') = None"
  by code_simp

section \<open>The Respond stage: properties\<close>

text \<open>
  C8, as the source has it.  When the reply text does not parse, \<open>handleFollowUp\<close>
  succeeds with the text left after the removal of code fence markers as the answer,
  and the three fixed suggested questions; that text is the reply itself when the
  reply does not start with a fence.  When the capability call fails, the result is the
  failure \<open>Failed to process follow-up question\<close> with the error's message, and no
  answer.
\<close>

theorem respond_fallback_and_failure:
  "(parseContent c = None \<longrightarrow>
      handleFollowUp (CapContent c) a w question history =
        (FollowUpOk (plainTextAnswer (removeCodeBlockMarkers c)),
         [RespondRequest a w history question])) \<and>
   (\<not> startsWith c (js ''```'') \<longrightarrow> removeCodeBlockMarkers c = c) \<and>
   handleFollowUp (CapError e) a w question history =
     (FollowUpFailed (js ''Failed to process follow-up question'') (message e),
      [RespondRequest a w history question])"
  by (simp add: handleFollowUp_def removeCodeBlockMarkers_unfenced)

theorem respond_fallback_and_failure_witness:
  "handleFollowUp (CapContent (js ''It is vegan.'')) JNull JNull (js ''is this vegan?'') [] =
     (FollowUpOk (plainTextAnswer (js ''It is vegan.'')),
      [RespondRequest JNull JNull [] (js ''is this vegan?'')]) \<and>
   removeCodeBlockMarkers (js ''It is vegan.'') = js ''It is vegan.''"
proof -
  have p: "parseContent (js ''It is vegan.'') = None"
    by code_simp
  have f: "\<not> startsWith (js ''It is vegan.'') (js ''```'')"
    by (simp add: startsWith_def js_def)
  show ?thesis
    using respond_fallback_and_failure [of "js ''It is vegan.''" JNull JNull "js ''is this vegan?''" "[]"]
      p f by simp
qed

theorem respond_fallback_not_verbatim_counterexample:
  "parseContent (js ''```\<newline>It is vegan.\<newline>```'') = None \<and>
   fst (handleFollowUp (CapContent (js ''```\<newline>It is vegan.\<newline>```'')) JNull JNull
         (js ''is this vegan?'') []) =
     FollowUpOk (plainTextAnswer (js ''It is vegan.'')) \<and>
   readProperty (plainTextAnswer (js ''It is vegan.'')) (js ''answer'') =
     Inr (JV (JString (js ''It is vegan.''))) \<and>
   js ''It is vegan.'' \<noteq> js ''```\<newline>It is vegan.\<newline>```''"
  by code_simp

section \<open>The chat route: properties\<close>

lemma handleFollowUp_sent:
  "snd (handleFollowUp reply a w question history) = [RespondRequest a w history question]"
  by (simp add: handleFollowUp_def split: cap_reply.splits option.splits)

lemma chat_handler_valid:
  fixes s :: session and msg :: jsstring
    and t_get t_user t_user_accessed t_answer t_answer_accessed :: int
  assumes present: "m sessionId = Some s" and nonempty: "msg \<noteq> []" "trim msg \<noteq> []"
  defines "h1 \<equiv> most_recent 10 (conversationHistory s @
                    [\<lparr>role = js ''user'', content = JV (JString msg), timestamp = t_user\<rparr>])"
  defines "s2 \<equiv> s\<lparr>lastAccessed := t_get\<rparr>\<lparr>conversationHistory := h1, lastAccessed := t_user_accessed\<rparr>"
  defines "m2 \<equiv> (m(sessionId \<mapsto> s\<lparr>lastAccessed := t_get\<rparr>))(sessionId \<mapsto> s2)"
  defines "w \<equiv> orElse (JV (webInfo s)) (JObject [])"
  defines "h3 \<equiv> \<lambda>answer. most_recent 10 (h1 @
                    [\<lparr>role = js ''assistant'', content = answer, timestamp = t_answer\<rparr>])"
  shows "chat_handler reply (t_get, t_user, t_user_accessed, t_answer, t_answer_accessed) sessionId
           (JV (JString msg)) m =
         (case fst (handleFollowUp reply (analysis s) w msg h1) of
            FollowUpFailed err det \<Rightarrow>
              (Failure 500 (JString err) det, m2, [RespondRequest (analysis s) w h1 msg])
          | FollowUpOk aiResponse \<Rightarrow>
              (case readProperty aiResponse (js ''answer'') of
                 Inl e \<Rightarrow> (chat_caught e, m2, [RespondRequest (analysis s) w h1 msg])
               | Inr answer \<Rightarrow>
                   (ChatSuccess answer
                      (orElse (readOptional (JV aiResponse) (js ''suggestedQuestions'')) (JArray []))
                      (h3 answer),
                    m2(sessionId \<mapsto> s2\<lparr>conversationHistory := h3 answer,
                                          lastAccessed := t_answer_accessed\<rparr>),
                    [RespondRequest (analysis s) w h1 msg])))"
proof -
  let ?s1 = "s\<lparr>lastAccessed := t_get\<rparr>"
  let ?m1 = "m(sessionId \<mapsto> ?s1)"
  have g: "getAnalysis t_get sessionId m = (Some ?s1, ?m1)"
    using present by (simp add: getAnalysis_def Let_def)
  have "?m1 sessionId = Some ?s1"
    by simp
  then have a1: "addToConversationHistory t_user t_user_accessed sessionId (js ''user'')
        (JV (JString msg)) ?m1 = (Some s2, m2)"
    unfolding s2_def m2_def h1_def
    by (simp add: addToConversationHistory_present [where s = "?s1"])
  have "m2 sessionId = Some s2"
    by (simp add: m2_def)
  then have a2: "addToConversationHistory t_answer t_answer_accessed sessionId (js ''assistant'')
        answer m2 =
      (Some (s2\<lparr>conversationHistory := h3 answer, lastAccessed := t_answer_accessed\<rparr>),
       m2(sessionId \<mapsto> s2\<lparr>conversationHistory := h3 answer, lastAccessed := t_answer_accessed\<rparr>))"
    for answer
    unfolding h3_def
    by (simp add: addToConversationHistory_present [where s = s2] s2_def)
  have fields: "analysis s2 = analysis s" "webInfo s2 = webInfo s" "conversationHistory s2 = h1"
    by (simp_all add: s2_def)
  obtain r where r: "handleFollowUp reply (analysis s) w msg h1 =
      (r, [RespondRequest (analysis s) w h1 msg])"
    using handleFollowUp_sent [of reply "analysis s" w msg h1]
    by (cases "handleFollowUp reply (analysis s) w msg h1") auto
  show ?thesis
  proof (cases r)
    case (FollowUpFailed err det)
    then show ?thesis
      unfolding chat_handler_def using nonempty
      by (simp add: g a1 fields r w_def [symmetric])
  next
    case (FollowUpOk ai)
    then show ?thesis
      unfolding chat_handler_def using nonempty
      by (cases ai) (simp_all add: g a1 a2 fields r w_def [symmetric])
  qed
qed


lemma last_most_recent: "0 < n \<Longrightarrow> last (most_recent n (xs @ [x])) = x"
  by (simp add: most_recent_def)

lemma readProperty_not_null: "v \<noteq> JNull \<Longrightarrow> \<exists>x. readProperty v k = Inr x"
  by (cases v) simp_all

lemma handleFollowUp_content:
  "\<exists>v. fst (handleFollowUp (CapContent c) a w question history) = FollowUpOk v \<and>
       (parseContent c \<noteq> Some JNull \<longrightarrow> v \<noteq> JNull)"
  by (cases "parseContent c") (auto simp add: handleFollowUp_def plainTextAnswer_def)

text \<open>
  C9.  On a chat request for a stored session with a message that is not blank, the
  request sent to the Respond stage carries the log with the user's message already
  appended as its last entry, and it is the only request.  If the reply is a
  \<open>ChatSuccess\<close>, the log stored afterwards is that log with the assistant's answer
  appended (both appends under the cap of 10); in every other case, a failure of the
  stage included, the stored log ends with the user's message and holds no answer.  A
  log of at most 8 entries grows by exactly the two entries, user then assistant.  The
  stage failing gives a failure reply; the stage returning a value other than \<open>null\<close>
  gives a \<open>ChatSuccess\<close>.
\<close>

theorem chat_appends_user_before_respond:
  fixes s :: session and msg sessionId :: jsstring and m :: sessions and reply :: cap_reply
    and t_get t_user t_user_accessed t_answer t_answer_accessed :: int
  assumes present: "m sessionId = Some s" and header: "sessionId \<noteq> []"
    and nonempty: "msg \<noteq> []" "trim msg \<noteq> []"
  defines "u \<equiv> \<lparr>role = js ''user'', content = JV (JString msg), timestamp = t_user\<rparr>"
  defines "h1 \<equiv> most_recent 10 (conversationHistory s @ [u])"
  defines "R \<equiv> chat_route reply (t_get, t_user, t_user_accessed, t_answer, t_answer_accessed)
                   (Some sessionId) (JV (JString msg)) m"
  shows "snd (snd R) = [RespondRequest (analysis s) (orElse (JV (webInfo s)) (JObject [])) h1 msg] \<and>
         last h1 = u \<and>
         (\<exists>s'. fst (snd R) sessionId = Some s' \<and>
            (case fst R of
               ChatSuccess answer suggested shown \<Rightarrow>
                 conversationHistory s' =
                   most_recent 10
                     (h1 @ [\<lparr>role = js ''assistant'', content = answer, timestamp = t_answer\<rparr>]) \<and>
                 shown = conversationHistory s' \<and>
                 (length (conversationHistory s) \<le> 8 \<longrightarrow>
                    conversationHistory s' =
                      conversationHistory s @
                        [u, \<lparr>role = js ''assistant'', content = answer, timestamp = t_answer\<rparr>])
             | _ \<Rightarrow> conversationHistory s' = h1)) \<and>
         (\<forall>e. reply = CapError e \<longrightarrow>
            fst R = Failure 500 (JString (js ''Failed to process follow-up question'')) (message e)) \<and>
         (\<forall>c. reply = CapContent c \<and> parseContent c \<noteq> Some JNull \<longrightarrow>
            (\<exists>answer suggested shown. fst R = ChatSuccess answer suggested shown))"
proof -
  let ?w = "orElse (JV (webInfo s)) (JObject [])"
  let ?F = "fst (handleFollowUp reply (analysis s) ?w msg h1)"
  have route: "R = chat_handler reply (t_get, t_user, t_user_accessed, t_answer, t_answer_accessed)
      sessionId (JV (JString msg)) m"
    using present header by (simp add: R_def chat_route_def validateSession_def hasSession_def)
  let ?s2 = "s\<lparr>lastAccessed := t_get\<rparr>\<lparr>conversationHistory := h1, lastAccessed := t_user_accessed\<rparr>"
  let ?m2 = "(m(sessionId \<mapsto> s\<lparr>lastAccessed := t_get\<rparr>))(sessionId \<mapsto> ?s2)"
  let ?h3 = "\<lambda>answer. most_recent 10 (h1 @
                    [\<lparr>role = js ''assistant'', content = answer, timestamp = t_answer\<rparr>])"
  have handler: "chat_handler reply (t_get, t_user, t_user_accessed, t_answer, t_answer_accessed)
           sessionId (JV (JString msg)) m =
         (case ?F of
            FollowUpFailed err det \<Rightarrow>
              (Failure 500 (JString err) det, ?m2, [RespondRequest (analysis s) ?w h1 msg])
          | FollowUpOk aiResponse \<Rightarrow>
              (case readProperty aiResponse (js ''answer'') of
                 Inl e \<Rightarrow> (chat_caught e, ?m2, [RespondRequest (analysis s) ?w h1 msg])
               | Inr answer \<Rightarrow>
                   (ChatSuccess answer
                      (orElse (readOptional (JV aiResponse) (js ''suggestedQuestions'')) (JArray []))
                      (?h3 answer),
                    ?m2(sessionId \<mapsto> ?s2\<lparr>conversationHistory := ?h3 answer,
                                          lastAccessed := t_answer_accessed\<rparr>),
                    [RespondRequest (analysis s) ?w h1 msg])))"
    unfolding h1_def u_def using present nonempty by (rule chat_handler_valid)
  have short: "most_recent 10 (h1 @ [x]) = conversationHistory s @ [u, x]"
    if "length (conversationHistory s) \<le> 8" for x
    using that by (simp add: h1_def most_recent_short)
  have sent: "snd (snd R) = [RespondRequest (analysis s) ?w h1 msg]"
    unfolding route handler
    by (simp split: followup_result.splits sum.splits)
  have last: "last h1 = u"
    by (simp add: h1_def last_most_recent)
  have stored: "\<exists>s'. fst (snd R) sessionId = Some s' \<and>
            (case fst R of
               ChatSuccess answer suggested shown \<Rightarrow>
                 conversationHistory s' =
                   most_recent 10
                     (h1 @ [\<lparr>role = js ''assistant'', content = answer, timestamp = t_answer\<rparr>]) \<and>
                 shown = conversationHistory s' \<and>
                 (length (conversationHistory s) \<le> 8 \<longrightarrow>
                    conversationHistory s' =
                      conversationHistory s @
                        [u, \<lparr>role = js ''assistant'', content = answer, timestamp = t_answer\<rparr>])
             | _ \<Rightarrow> conversationHistory s' = h1)"
    unfolding route handler
    using short
    by (simp add: chat_caught_def split: followup_result.splits sum.splits)
  have failed: "fst R = Failure 500 (JString (js ''Failed to process follow-up question'')) (message e)"
    if "reply = CapError e" for e
    unfolding route handler using that
    by (simp add: handleFollowUp_def)
  have succeeded: "\<exists>answer suggested shown. fst R = ChatSuccess answer suggested shown"
    if "reply = CapContent c" "parseContent c \<noteq> Some JNull" for c
  proof -
    from handleFollowUp_content [of c "analysis s" ?w msg h1] that obtain v where
      v: "?F = FollowUpOk v" "v \<noteq> JNull"
      by auto
    from readProperty_not_null [OF v(2), of "js ''answer''"] obtain x where
      "readProperty v (js ''answer'') = Inr x" by blast
    then show ?thesis
      unfolding route handler using v(1) by simp
  qed
  show ?thesis
    using sent last stored failed succeeded by blast
qed

theorem chat_appends_user_before_respond_witness:
  "snd (snd (chat_route (CapContent (js ''{\"answer\": \"Yes\"}'')) (1, 2, 3, 4, 5) (Some (js ''s1''))
        (JV (JString (js ''is this vegan?'')))
        (snd (storeAnalysis 0 0 (js ''s1'') JNull JNull JNull Map.empty)))) =
     [RespondRequest JNull (JObject [])
        [\<lparr>role = js ''user'', content = JV (JString (js ''is this vegan?'')), timestamp = 2\<rparr>]
        (js ''is this vegan?'')] \<and>
   fst (chat_route (CapContent (js ''{\"answer\": \"Yes\"}'')) (1, 2, 3, 4, 5) (Some (js ''s1''))
        (JV (JString (js ''is this vegan?'')))
        (snd (storeAnalysis 0 0 (js ''s1'') JNull JNull JNull Map.empty))) =
     ChatSuccess (JV (JString (js ''Yes''))) (JArray [])
       [\<lparr>role = js ''user'', content = JV (JString (js ''is this vegan?'')), timestamp = 2\<rparr>,
        \<lparr>role = js ''assistant'', content = JV (JString (js ''Yes'')), timestamp = 4\<rparr>] \<and>
   (\<exists>s'. fst (snd (chat_route (CapContent (js ''{\"answer\": \"Yes\"}'')) (1, 2, 3, 4, 5)
        (Some (js ''s1'')) (JV (JString (js ''is this vegan?'')))
        (snd (storeAnalysis 0 0 (js ''s1'') JNull JNull JNull Map.empty)))) (js ''s1'') = Some s' \<and>
      conversationHistory s' =
       [\<lparr>role = js ''user'', content = JV (JString (js ''is this vegan?'')), timestamp = 2\<rparr>,
        \<lparr>role = js ''assistant'', content = JV (JString (js ''Yes'')), timestamp = 4\<rparr>])"
proof -
  let ?m = "snd (storeAnalysis 0 0 (js ''s1'') JNull JNull JNull Map.empty)"
  let ?s = "fst (storeAnalysis 0 0 (js ''s1'') JNull JNull JNull Map.empty)"
  let ?R = "chat_route (CapContent (js ''{\"answer\": \"Yes\"}'')) (1, 2, 3, 4, 5) (Some (js ''s1''))
        (JV (JString (js ''is this vegan?''))) ?m"
  have present: "?m (js ''s1'') = Some ?s"
    by (simp add: storeAnalysis_def Let_def)
  have header: "js ''s1'' \<noteq> []"
    by (simp add: js_def)
  have nonempty: "js ''is this vegan?'' \<noteq> []" "trim (js ''is this vegan?'') \<noteq> []"
    by code_simp+
  have parsed: "parseContent (js ''{\"answer\": \"Yes\"}'') \<noteq> Some JNull"
    by code_simp
  have s: "conversationHistory ?s = []" "analysis ?s = JNull" "webInfo ?s = JNull"
    by (simp_all add: storeAnalysis_def Let_def)
  note t = chat_appends_user_before_respond [where m = ?m and sessionId = "js ''s1''" and s = ?s
      and msg = "js ''is this vegan?''" and reply = "CapContent (js ''{\"answer\": \"Yes\"}'')"
      and t_get = 1 and t_user = 2 and t_user_accessed = 3 and t_answer = 4
      and t_answer_accessed = 5, OF present header nonempty]
  have success: "fst ?R = ChatSuccess (JV (JString (js ''Yes''))) (JArray [])
       [\<lparr>role = js ''user'', content = JV (JString (js ''is this vegan?'')), timestamp = 2\<rparr>,
        \<lparr>role = js ''assistant'', content = JV (JString (js ''Yes'')), timestamp = 4\<rparr>]"
    by code_simp
  from t success have
    "snd (snd ?R) =
       [RespondRequest JNull (JObject [])
          [\<lparr>role = js ''user'', content = JV (JString (js ''is this vegan?'')), timestamp = 2\<rparr>]
          (js ''is this vegan?'')]"
    "\<exists>s'. fst (snd ?R) (js ''s1'') = Some s' \<and>
      conversationHistory s' =
       [\<lparr>role = js ''user'', content = JV (JString (js ''is this vegan?'')), timestamp = 2\<rparr>,
        \<lparr>role = js ''assistant'', content = JV (JString (js ''Yes'')), timestamp = 4\<rparr>]"
    by (auto simp add: s most_recent_def orElse_def)
  with success show ?thesis
    by blast
qed

section \<open>Enrichment failure\<close>

lemma searchProductInfo_failed:
  "reply2 = CapError e \<or> (\<exists>c. reply2 = CapContent c \<and> parseContent c = None) \<Longrightarrow>
   \<exists>err fallback sent. searchProductInfo reply2 productName ingredients =
      (SearchFailed err fallback, sent)"
  by (auto simp add: searchProductInfo_def searchProductInfo_caught_def split: sum.splits)

text \<open>
  Whenever the enrichment stage fails and the summary stage returns, the route stores a
  session whose \<open>webInfo\<close> is the fixed degraded value of the route.
\<close>

lemma enrichment_failure_degrades:
  assumes extracted: "analyzeImage reply1 (base64 (buffer f)) (mimetype f) = (AnalysisOk a, sent1)"
    and failed: "searchProductInfo reply2
                   (orElse (readOptional (JV a) (js ''productName'')) (jsstr ''Unknown Product''))
                   (orElse (readOptional (JV a) (js ''ingredients'')) (JArray [])) =
                 (SearchFailed err fallback, sent2)"
    and summarized: "generateFormattedSummary reply3 a degradedWebInfo = (Inr formatted, sent3)"
  shows "analyze_handler reply1 reply2 reply3 newId t_created t_accessed f m =
           (AnalyzeSuccess newId formatted analyze_suggestedQuestions,
            m(newId \<mapsto> \<lparr>analysis = a, webInfo = degradedWebInfo, formattedData = formatted,
                           conversationHistory = [], createdAt = t_created,
                           lastAccessed = t_accessed\<rparr>),
            sent1 @ sent2 @ sent3)"
proof -
  have "a \<noteq> JNull"
    using extracted
    by (auto simp add: analyzeImage_def analyzeImage_caught_def
        split: if_splits cap_reply.splits option.splits sum.splits)
  then have reads: "readProperty a k = Inr (readOptional (JV a) k)" for k
    by (cases a) simp_all
  show ?thesis
    using extracted failed summarized
    by (simp add: analyze_handler_def reads storeAnalysis_def Let_def)
qed

text \<open>
  C4.  An input on which the claim fails: the extraction returns an object whose
  \<open>ingredients\<close> field is \<open>false\<close>, and the capability fails on the enrichment call and
  on the summary call.  The enrichment failure is absorbed (the summary stage is given
  the degraded value), but the fallback of the summary stage calls \<open>slice\<close> on
  \<open>false\<close>; the TypeError leaves \<open>generateFormattedSummary\<close>, the route answers with a
  failure and no session is stored.
\<close>

theorem enrichment_failure_with_summary_crash:
  "analyze_route False (CapContent (js ''{\"ingredients\": false}''))
     (CapError (Error (js ''unavailable''))) (CapError (Error (js ''unavailable'')))
     (js ''id'') 0 0 (Some \<lparr>mimetype = js ''image/png'', buffer = [0x41]\<rparr>) Map.empty =
   (Failure 500 (jsstr ''Failed to process image'') (MessageOf TypeError),
    Map.empty,
    [ExtractRequest (js ''image/png'') (js ''QQ==''),
     EnrichRequest (jsstr ''Unknown Product'') (JArray []),
     SummarizeRequest (JObject [(js ''ingredients'', JBool False)]) degradedWebInfo])"
proof -
  have p: "parseContent (js ''{\"ingredients\": false}'') =
      Some (JObject [(js ''ingredients'', JBool False)])"
    by code_simp
  have t: "js ''image/png'' \<in> set SUPPORTED_IMAGE_TYPES" "\<not> length [0x41 :: 8 word] > fileSize_limit"
    by (simp_all add: SUPPORTED_IMAGE_TYPES_def fileSize_limit_def)
  have b: "base64 [0x41] = js ''QQ==''"
    by (simp add: base64_alphabet_def js_def)
  have i: "js ''QQ=='' \<noteq> []" "js ''image/png'' \<noteq> []" "startsWith (js ''image/png'') (js ''image/'')"
    by (simp_all add: startsWith_def js_def)
  have k: "js ''isError'' \<noteq> js ''ingredients''" "js ''error'' \<noteq> js ''ingredients''"
    "js ''productName'' \<noteq> js ''ingredients''" "js ''toString'' \<noteq> js ''ingredients''"
    by (simp_all add: js_def)
  have a: "analyzeImage (CapContent (js ''{\"ingredients\": false}'')) (js ''QQ=='') (js ''image/png'') =
      (AnalysisOk (JObject [(js ''ingredients'', JBool False)]),
       [ExtractRequest (js ''image/png'') (js ''QQ=='')])"
    using i k by (simp add: analyzeImage_def p)
  have e: "searchProductInfo (CapError (Error (js ''unavailable''))) (jsstr ''Unknown Product'') (JArray []) =
      (searchProductInfo_caught, [EnrichRequest (jsstr ''Unknown Product'') (JArray [])])"
    by (simp add: searchProductInfo_def jsstr_def slice_def relative_index_def)
  have f: "fallbackSummary (JObject [(js ''ingredients'', JBool False)]) = Inl TypeError"
    using k by (simp add: fallbackSummary_def field_def)
  have g: "generateFormattedSummary (CapError (Error (js ''unavailable'')))
        (JObject [(js ''ingredients'', JBool False)]) degradedWebInfo =
      (Inl TypeError,
       [SummarizeRequest (JObject [(js ''ingredients'', JBool False)]) degradedWebInfo])"
    by (simp add: generateFormattedSummary_def f)
  have a': "analyzeImage (CapContent (js ''{\"ingredients\": false}'')) (base64 [0x41]) (js ''image/png'') =
      (AnalysisOk (JObject [(js ''ingredients'', JBool False)]),
       [ExtractRequest (js ''image/png'') (js ''QQ=='')])"
    unfolding b by (rule a)
  show ?thesis
    using t k
    by (simp add: analyze_route_def fileFilter_def analyze_handler_def a' e g orElse_def
        searchProductInfo_caught_def analyze_caught_def del: base64.simps)
qed

section \<open>Session deletion\<close>

text \<open>
  C5.  For every session id and every store, \<open>deleteSession\<close> of the session manager
  returns a boolean, which is true exactly when the store held a session under the id
  (when \<open>hasSession\<close> held); afterwards the store holds no session under the id, so
  \<open>hasSession\<close> fails, \<open>getAnalysis\<close> returns null and a second deletion returns
  false, and every other session is as before.  The operation has no other outcome: it
  is a total function into booleans and stores, with no error value.
\<close>

theorem deleteSession_returns_whether_present:
  "fst (deleteSession sessionId m) = hasSession sessionId m \<and>
   fst (deleteSession sessionId m) = (m sessionId \<noteq> None) \<and>
   snd (deleteSession sessionId m) sessionId = None \<and>
   (\<forall>k. k \<noteq> sessionId \<longrightarrow> snd (deleteSession sessionId m) k = m k) \<and>
   hasSession sessionId (snd (deleteSession sessionId m)) = False \<and>
   fst (getAnalysis now sessionId (snd (deleteSession sessionId m))) = None \<and>
   fst (deleteSession sessionId (snd (deleteSession sessionId m))) = False"
  by (simp add: deleteSession_def hasSession_def getAnalysis_def)

theorem deleteSession_returns_whether_present_witness:
  "fst (deleteSession (js ''a'')
     (snd (storeAnalysis 1 1 (js ''b'') JNull JNull JNull
        (snd (storeAnalysis 0 0 (js ''a'') JNull JNull JNull Map.empty))))) = True \<and>
   snd (deleteSession (js ''a'')
     (snd (storeAnalysis 1 1 (js ''b'') JNull JNull JNull
        (snd (storeAnalysis 0 0 (js ''a'') JNull JNull JNull Map.empty))))) (js ''a'') = None \<and>
   snd (deleteSession (js ''a'')
     (snd (storeAnalysis 1 1 (js ''b'') JNull JNull JNull
        (snd (storeAnalysis 0 0 (js ''a'') JNull JNull JNull Map.empty))))) (js ''b'') =
     Some \<lparr>analysis = JNull, webInfo = JNull, formattedData = JNull, conversationHistory = [],
           createdAt = 1, lastAccessed = 1\<rparr> \<and>
   fst (deleteSession (js ''c'')
     (snd (storeAnalysis 1 1 (js ''b'') JNull JNull JNull
        (snd (storeAnalysis 0 0 (js ''a'') JNull JNull JNull Map.empty))))) = False"
proof -
  let ?m = "snd (storeAnalysis 1 1 (js ''b'') JNull JNull JNull
              (snd (storeAnalysis 0 0 (js ''a'') JNull JNull JNull Map.empty)))"
  have stored: "?m (js ''a'') \<noteq> None" "?m (js ''c'') = None" "js ''b'' \<noteq> js ''a''"
    "?m (js ''b'') = Some \<lparr>analysis = JNull, webInfo = JNull, formattedData = JNull,
       conversationHistory = [], createdAt = 1, lastAccessed = 1\<rparr>"
    by (simp_all add: storeAnalysis_def Let_def js_def)
  have present: "fst (deleteSession (js ''a'') ?m) = (?m (js ''a'') \<noteq> None)"
      "snd (deleteSession (js ''a'') ?m) (js ''a'') = None"
      "\<forall>k. k \<noteq> js ''a'' \<longrightarrow> snd (deleteSession (js ''a'') ?m) k = ?m k"
    using deleteSession_returns_whether_present [of "js ''a''" ?m 0] by blast+
  have absent: "fst (deleteSession (js ''c'') ?m) = (?m (js ''c'') \<noteq> None)"
    using deleteSession_returns_whether_present [of "js ''c''" ?m 0] by blast
  have "snd (deleteSession (js ''a'') ?m) (js ''b'') = ?m (js ''b'')"
    using present(3) stored(3) by blast
  then show ?thesis
    using present(1,2) absent stored(1,2,4) by simp
qed

text \<open>
  The delete route of the server is a different operation.  The server's
  \<open>require\<close> of the session manager does not bind the name \<open>deleteSession\<close>, which the
  module exports: the route's handler raises a ReferenceError on every request, answers
  through the error-handling middleware and leaves a stored session in place.
\<close>

lemma delete_route_unbound_name:
  "''deleteSession'' \<in> set sessionManager_exports \<and>
   ''deleteSession'' \<notin> set sessionManager_imports \<and>
   delete_route development sessionId (m(sessionId \<mapsto> s)) =
     (Failure 500 (jsstr ''Internal server error'')
        (if development then MessageOf ReferenceError else Details (js ''Something went wrong'')),
      m(sessionId \<mapsto> s))"
  by (simp add: delete_route_def sessionManager_imports_def sessionManager_exports_def
      errorHandler_def)

end
